theory Spec2Isabelle
  imports Complex_Main "HOL-Library.Word"
begin

section \<open>Shared data: DNS domains and Go errors\<close>

text \<open>
  Go's \<open>dns.Domain\<close> is a struct of two strings, the ASCII (A-label) form and the
  Unicode form, which is empty when it equals the ASCII form. The source reads both
  fields (\<open>STSMX.LogString\<close>) and compares whole values with \<open>==\<close>, which in Go is
  field-wise equality; record equality in HOL is the same.
\<close>

record dns_Domain =
  ASCII :: string
  Unicode :: string

text \<open>
  A Go \<open>error\<close> is \<open>error option\<close>, \<open>None\<close> for \<open>nil\<close>. The constructors are the
  sentinel errors the sources name (\<open>store.ErrNoJunkFilter\<close>, the policy fetch errors
  of package mtasts, the limit error of \<open>moxio.LimitReader\<close>, \<open>io.EOF\<close>), a DNS error with its
  not-found flag, an error of the HTTP client around its cause (\<open>url.Error\<close>), any
  other error by its text, and the errors \<open>fmt.Errorf\<close> makes: \<open>Wrapped\<close> holds the
  format and the operand of \<open>%w\<close>, \<open>Wrapped2\<close> also the error printed with \<open>%s\<close>.
\<close>

datatype error =
    ErrNoJunkFilter
  | ErrNoPolicy
  | ErrPolicyFetch
  | ErrPolicySyntax
  | ErrLimit
  | EOF
  | DNSError bool
  | URLError error
  | Err string
  | Wrapped string error
  | Wrapped2 string error error

text \<open>
  \<open>errors.Is\<close> follows the chain of wrapped errors; \<open>dns.IsNotFound\<close> looks for a
  DNS error in the chain and reads its flag.
\<close>

fun errors_Is :: "error \<Rightarrow> error \<Rightarrow> bool" where
  "errors_Is (Wrapped f e) t = (Wrapped f e = t \<or> errors_Is e t)"
| "errors_Is (Wrapped2 f e s) t = (Wrapped2 f e s = t \<or> errors_Is e t)"
| "errors_Is (URLError e) t = (URLError e = t \<or> errors_Is e t)"
| "errors_Is e t = (e = t)"

fun IsNotFound :: "error \<Rightarrow> bool" where
  "IsNotFound (DNSError notfound) = notfound"
| "IsNotFound (Wrapped f e) = IsNotFound e"
| "IsNotFound (Wrapped2 f e s) = IsNotFound e"
| "IsNotFound (URLError e) = IsNotFound e"
| "IsNotFound e = False"

section \<open>MTA-STS policies (mtasts/mtasts.go)\<close>

record Pair =
  Key :: string
  Value :: string

record STSMX =
  Wildcard :: bool
  Domain :: dns_Domain

record Policy =
  Version :: string
  Mode :: string
  MX :: "STSMX list"
  MaxAgeSeconds :: int
  Extensions :: "Pair list"

text \<open>
  \<open>strings.SplitN(s, ".", 2)\<close> cuts \<open>s\<close> at its first dot: it returns the two
  pieces when there is a dot and the one-element slice \<open>[s]\<close> when there is none.
  \<open>cut_dot\<close> finds the first dot.
\<close>

fun cut_dot :: "string \<Rightarrow> (string \<times> string) option" where
  "cut_dot [] = None"
| "cut_dot (c # cs) =
     (if c = CHR ''.'' then Some ([], cs)
      else (case cut_dot cs of None \<Rightarrow> None | Some (a, b) \<Rightarrow> Some (c # a, b)))"

definition SplitN_dot_2 :: "string \<Rightarrow> string list" where
  "SplitN_dot_2 s = (case cut_dot s of None \<Rightarrow> [s] | Some (a, b) \<Rightarrow> [a, b])"

text \<open>The loop of \<open>Policy.Matches\<close> over \<open>p.MX\<close>, returning at the first match.\<close>

fun Matches_loop :: "STSMX list \<Rightarrow> dns_Domain \<Rightarrow> bool" where
  "Matches_loop [] host = False"
| "Matches_loop (mx # mxs) host =
     (if Wildcard mx then
        (let v = SplitN_dot_2 (ASCII host) in
         if length v = 2 \<and> v ! 1 = ASCII (Domain mx) then True
         else Matches_loop mxs host)
      else if host = Domain mx then True
      else Matches_loop mxs host)"

definition Matches :: "Policy \<Rightarrow> dns_Domain \<Rightarrow> bool" where
  "Matches p host = Matches_loop (MX p) host"

text \<open>
  The part of a name after its first label: \<open>after_first_label s r\<close> holds when \<open>s\<close>
  is a dot-free label, a dot, and \<open>r\<close>.
\<close>

definition after_first_label :: "string \<Rightarrow> string \<Rightarrow> bool" where
  "after_first_label s r = (\<exists>l. CHR ''.'' \<notin> set l \<and> s = l @ CHR ''.'' # r)"

section \<open>The control connection (ctl.go)\<close>

text \<open>
  The methods of \<open>ctl\<close>, \<open>ctlwriter\<close> and \<open>ctlreader\<close> handle an error by
  \<open>log.Fatal\<close> or by \<open>panic\<close>; either way the method does not return. \<open>Aborts\<close> is
  that outcome, with the message.
\<close>

datatype 'a exec = Aborts string | Done 'a

definition nl :: char where
  "nl = CHR 0x0A"

subsection \<open>Decimal numbers and lines\<close>

text \<open>
  \<open>fmt.Fprintf(conn, "%d\n", len(buf))\<close> prints a length in decimal; \<open>Itoa\<close> is
  the decimal form of a natural number.
\<close>

definition digit_char :: "nat \<Rightarrow> char" where
  "digit_char d = ''0123456789'' ! d"

function Itoa :: "nat \<Rightarrow> string" where
  "Itoa n = (if n < 10 then [digit_char n] else Itoa (n div 10) @ [digit_char (n mod 10)])"
  by pat_completeness auto
termination
  by (relation "measure id") auto

declare Itoa.simps [simp del]

text \<open>
  \<open>strconv.ParseInt(line, 10, 32)\<close>: an optional sign and one or more decimal
  digits; a value outside the 32-bit signed range is an error.
\<close>

definition digit_val :: "char \<Rightarrow> nat option" where
  "digit_val c =
     (let v = (of_char c :: nat) in if 48 \<le> v \<and> v \<le> 57 then Some (v - 48) else None)"

fun parse_digits :: "nat \<Rightarrow> string \<Rightarrow> nat option" where
  "parse_digits acc [] = Some acc"
| "parse_digits acc (c # cs) =
     (case digit_val c of None \<Rightarrow> None | Some d \<Rightarrow> parse_digits (10 * acc + d) cs)"

definition ParseInt32 :: "string \<Rightarrow> error + int" where
  "ParseInt32 s =
     (let (neg, ds) =
            (case s of
               [] \<Rightarrow> (False, [])
             | c # cs \<Rightarrow>
                 if c = CHR ''+'' then (False, cs)
                 else if c = CHR ''-'' then (True, cs)
                 else (False, s))
      in if ds = [] then Inl (Err ''invalid syntax'')
         else
           (case parse_digits 0 ds of
              None \<Rightarrow> Inl (Err ''invalid syntax'')
            | Some v \<Rightarrow>
                (let i = (if neg then - int v else int v)
                 in if i < - (2 ^ 31) \<or> 2 ^ 31 - 1 < i then Inl (Err ''value out of range'')
                    else Inr i)))"

text \<open>
  \<open>bufio.Reader.ReadString('\n')\<close> on the bytes still to come: the line with its
  newline and the rest, or \<open>None\<close> when the input ends before a newline (an error).
  \<open>strings.TrimSuffix(line, "\n")\<close> takes one final newline away.
\<close>

fun ReadString_nl :: "string \<Rightarrow> (string \<times> string) option" where
  "ReadString_nl [] = None"
| "ReadString_nl (c # cs) =
     (if c = nl then Some ([c], cs)
      else (case ReadString_nl cs of None \<Rightarrow> None | Some (l, r) \<Rightarrow> Some (c # l, r)))"

definition TrimSuffix_nl :: "string \<Rightarrow> string" where
  "TrimSuffix_nl s = (if s \<noteq> [] \<and> last s = nl then butlast s else s)"

subsection \<open>Commands and the handshake\<close>

text \<open>
  \<open>ctl.xwrite\<close> appends a line to what was written on the connection; \<open>ctl.xread\<close>
  reads a line from what is still to come. \<open>servectl\<close> first writes the version
  line; \<open>xctl\<close> on the other side reads it and checks it.
\<close>

definition xwrite :: "string \<Rightarrow> string \<Rightarrow> string" where
  "xwrite text conn = conn @ text @ [nl]"

definition xread :: "string \<Rightarrow> (string \<times> string) exec" where
  "xread r =
     (case ReadString_nl r of
        None \<Rightarrow> Aborts ''read from ctl''
      | Some (line, rest) \<Rightarrow> Done (TrimSuffix_nl line, rest))"

definition servectl_hello :: "string \<Rightarrow> string" where
  "servectl_hello conn = xwrite ''ctlv0'' conn"

definition xctl :: "string \<Rightarrow> string exec" where
  "xctl r =
     (case xread r of
        Aborts msg \<Rightarrow> Aborts msg
      | Done (version, rest) \<Rightarrow>
          if version \<noteq> ''ctlv0'' then Aborts ''ctl protocol mismatch'' else Done rest)"

subsection \<open>Writing a data stream\<close>

text \<open>
  \<open>ctlwriter.Write(buf)\<close>: the count line and the data are written on the
  connection, then one read of at most 512 bytes takes the response \<open>resp\<close> of the
  peer (empty when the connection is closed), which must be the line \<open>ok\<close>. The
  result is \<open>len(buf)\<close> and what was written on the connection.
\<close>

definition ctlwriter_Write :: "string \<Rightarrow> string \<Rightarrow> string \<Rightarrow> (nat \<times> string) exec" where
  "ctlwriter_Write buf resp conn =
     (let conn' = conn @ Itoa (length buf) @ [nl];
          conn'' = conn' @ buf
      in if resp = [] then Aborts ''reading response to write''
         else
           (let line = TrimSuffix_nl (take 512 resp)
            in if line \<noteq> ''ok'' then Aborts line else Done (length buf, conn'')))"

definition xclose :: "string \<Rightarrow> string" where
  "xclose conn = conn @ ''0'' @ [nl]"

text \<open>
  \<open>ctl.xstreamfrom(src)\<close>: \<open>io.Copy\<close> writes the chunks it reads from \<open>src\<close>, one
  \<open>Write\<close> each, and \<open>xclose\<close> ends the stream. \<open>resps\<close> are the responses the writes
  read.
\<close>

fun ctlwriter_Writes :: "string list \<Rightarrow> string list \<Rightarrow> string \<Rightarrow> string exec" where
  "ctlwriter_Writes [] resps conn = Done conn"
| "ctlwriter_Writes (buf # bufs) resps conn =
     (case ctlwriter_Write buf (case resps of [] \<Rightarrow> [] | resp # rest \<Rightarrow> resp) conn of
        Aborts msg \<Rightarrow> Aborts msg
      | Done (n, conn') \<Rightarrow> ctlwriter_Writes bufs (tl resps) conn')"

definition xstreamfrom :: "string list \<Rightarrow> string list \<Rightarrow> string \<Rightarrow> string exec" where
  "xstreamfrom chunks resps conn =
     (case ctlwriter_Writes chunks resps conn of
        Aborts msg \<Rightarrow> Aborts msg
      | Done conn' \<Rightarrow> Done (xclose conn'))"

subsection \<open>Reading a data stream\<close>

text \<open>
  The fields of \<open>ctlreader\<close>: \<open>err\<close> and \<open>npending\<close>, the bytes the buffered reader
  \<open>r\<close> will still deliver, and what the reader has written on the connection.
\<close>

record ctlreader =
  rd_err :: "error option"
  npending :: int
  rd_r :: string
  rd_conn :: string

text \<open>
  \<open>bufio.Reader.Read(p)\<close>: at most \<open>len(p)\<close> bytes, taken from at most one read of
  the connection, so possibly fewer than \<open>len(p)\<close>: \<open>avail\<close> is the number of bytes
  that read delivers, at least one. With nothing more to come the read is an error
  (\<open>None\<close>); with an empty \<open>p\<close> it returns no bytes and no error.
\<close>

definition bufio_Read :: "nat \<Rightarrow> nat \<Rightarrow> string \<Rightarrow> (string \<times> string) option" where
  "bufio_Read len_p avail r =
     (if len_p = 0 then Some ([], r)
      else if r = [] then None
      else (let n = min len_p (max 1 (min avail (length r))) in Some (take n r, drop n r)))"

text \<open>
  The block of \<open>ctlreader.Read\<close> under \<open>if s.npending == 0\<close>: the count line is
  read and parsed. The flag says that the count was 0 and \<open>Read\<close> returns \<open>io.EOF\<close>.
\<close>

definition read_count :: "ctlreader \<Rightarrow> (ctlreader \<times> bool) exec" where
  "read_count s =
     (case ReadString_nl (rd_r s) of
        None \<Rightarrow> Aborts ''reading count''
      | Some (line, rest) \<Rightarrow>
          (let line' = TrimSuffix_nl line
           in case ParseInt32 line' of
                Inl x \<Rightarrow> Aborts line'
              | Inr n \<Rightarrow>
                  if n = 0 then Done (s\<lparr>rd_r := rest, rd_err := Some EOF\<rparr>, True)
                  else Done (s\<lparr>rd_r := rest, npending := n\<rparr>, False)))"

text \<open>
  The rest of \<open>ctlreader.Read\<close>: at most \<open>npending\<close> bytes are read into \<open>buf\<close>, and
  \<open>ok\<close> is written when none is pending any more. A negative \<open>npending\<close> makes the
  slice expression \<open>buf[:rn]\<close> panic.
\<close>

definition read_data :: "nat \<Rightarrow> nat \<Rightarrow> ctlreader \<Rightarrow> ((string \<times> error option) \<times> ctlreader) exec" where
  "read_data len_buf avail s =
     (let rn = (if npending s < int len_buf then npending s else int len_buf)
      in if rn < 0 then Aborts ''slice bounds out of range''
         else
           (case bufio_Read (nat rn) avail (rd_r s) of
              None \<Rightarrow> Aborts ''read from ctl''
            | Some (bytes, rest) \<Rightarrow>
                (let s' = s\<lparr>rd_r := rest, npending := npending s - int (length bytes)\<rparr>
                 in if npending s' = 0
                    then Done ((bytes, None), s'\<lparr>rd_conn := rd_conn s' @ ''ok'' @ [nl]\<rparr>)
                    else Done ((bytes, None), s'))))"

definition ctlreader_Read ::
  "nat \<Rightarrow> nat \<Rightarrow> ctlreader \<Rightarrow> ((string \<times> error option) \<times> ctlreader) exec" where
  "ctlreader_Read len_buf avail s =
     (case rd_err s of
        Some x \<Rightarrow> Done (([], Some x), s)
      | None \<Rightarrow>
          if npending s = 0 then
            (case read_count s of
               Aborts msg \<Rightarrow> Aborts msg
             | Done (s', eof) \<Rightarrow>
                 if eof then Done (([], Some EOF), s') else read_data len_buf avail s')
          else read_data len_buf avail s)"

text \<open>
  \<open>ctl.reader()\<close> makes a reader on the buffered input of the connection.
  \<open>ctl.xstreamto(dst)\<close> is \<open>io.Copy\<close> from the reader: it reads into a buffer of 32
  KiB and writes what it got to \<open>dst\<close> until \<open>Read\<close> returns an error, which is the
  end when it is \<open>io.EOF\<close>. \<open>avails\<close> gives, call by call, what the connection
  delivers; the result is what went to \<open>dst\<close> and the reader at the end.
\<close>

definition reader :: "string \<Rightarrow> ctlreader" where
  "reader r = \<lparr>rd_err = None, npending = 0, rd_r = r, rd_conn = []\<rparr>"

definition copy_buffer :: nat where
  "copy_buffer = 32 * 1024"

definition next_avail :: "nat list \<Rightarrow> nat" where
  "next_avail avails = (case avails of [] \<Rightarrow> copy_buffer | k # rest \<Rightarrow> k)"

lemma ReadString_nl_shorter:
  "ReadString_nl r = Some (line, rest) \<Longrightarrow> length rest < length r"
proof (induction r arbitrary: line)
  case Nil
  then show ?case by simp
next
  case (Cons c cs)
  show ?case
  proof (cases "c = nl")
    case True
    with Cons.prems show ?thesis by simp
  next
    case False
    with Cons.prems obtain l where "ReadString_nl cs = Some (l, rest)"
      by (auto split: option.splits)
    from Cons.IH [OF this] show ?thesis by simp
  qed
qed

lemma bufio_Read_Some:
  assumes "bufio_Read len_p avail r = Some (bytes, rest)" and "0 < len_p"
  shows "bytes \<noteq> [] \<and> r = bytes @ rest \<and> length bytes \<le> len_p"
proof -
  from assms have r: "r \<noteq> []"
    by (auto simp: bufio_Read_def split: if_splits)
  let ?n = "min len_p (max 1 (min avail (length r)))"
  from assms r have b: "bytes = take ?n r" and t: "rest = drop ?n r"
    by (simp_all add: bufio_Read_def Let_def)
  from assms(2) r have "0 < ?n" "?n \<le> len_p" by simp_all
  with b t r show ?thesis by (cases r) simp_all
qed

lemma read_count_shorter:
  assumes "read_count s = Done (s', eof)"
  shows "length (rd_r s') < length (rd_r s) \<and> (\<not> eof \<longrightarrow> npending s' \<noteq> 0)"
proof -
  from assms obtain line rest where l: "ReadString_nl (rd_r s) = Some (line, rest)"
    by (auto simp: read_count_def split: option.splits)
  with assms have "rd_r s' = rest" and "\<not> eof \<longrightarrow> npending s' \<noteq> 0"
    by (auto simp: read_count_def Let_def split: sum.splits if_splits)
  with ReadString_nl_shorter [OF l] show ?thesis by simp
qed

lemma read_data_shorter:
  assumes "read_data len_buf avail s = Done (res, s')" and "0 < len_buf" and "npending s \<noteq> 0"
  shows "length (rd_r s') < length (rd_r s)"
proof -
  let ?rn = "if npending s < int len_buf then npending s else int len_buf"
  from assms(1) have n: "\<not> ?rn < 0"
    by (auto simp: read_data_def Let_def split: if_splits)
  with assms(2,3) have p: "0 < nat ?rn" by auto
  from assms(1) n obtain bytes rest
    where b: "bufio_Read (nat ?rn) avail (rd_r s) = Some (bytes, rest)"
    by (auto simp: read_data_def Let_def split: option.splits if_splits)
  with assms(1) n have "rd_r s' = rest"
    by (auto simp: read_data_def Let_def split: if_splits)
  with bufio_Read_Some [OF b p] show ?thesis by simp
qed

lemma ctlreader_Read_shorter:
  assumes "ctlreader_Read len_buf avail s = Done ((bytes, None), s')" and "0 < len_buf"
  shows "length (rd_r s') < length (rd_r s)"
proof (cases "npending s = 0")
  case True
  with assms(1) obtain s1 where c: "read_count s = Done (s1, False)"
    and d: "read_data len_buf avail s1 = Done ((bytes, None), s')"
    by (auto simp: ctlreader_Read_def split: option.splits exec.splits if_splits)
  from read_count_shorter [OF c] have "length (rd_r s1) < length (rd_r s)"
    and "npending s1 \<noteq> 0" by simp_all
  with read_data_shorter [OF d assms(2)] show ?thesis by simp
next
  case False
  with assms(1) have "read_data len_buf avail s = Done ((bytes, None), s')"
    by (auto simp: ctlreader_Read_def split: option.splits)
  from read_data_shorter [OF this assms(2) False] show ?thesis .
qed

function xstreamto_loop :: "nat list \<Rightarrow> ctlreader \<Rightarrow> (string \<times> ctlreader) exec" where
  "xstreamto_loop avails s =
     (case ctlreader_Read copy_buffer (next_avail avails) s of
        Aborts msg \<Rightarrow> Aborts msg
      | Done ((bytes, x), s') \<Rightarrow>
          (case x of
             Some x' \<Rightarrow> if x' = EOF then Done (bytes, s') else Aborts ''reading message''
           | None \<Rightarrow>
               (case xstreamto_loop (tl avails) s' of
                  Aborts msg \<Rightarrow> Aborts msg
                | Done (later, s'') \<Rightarrow> Done (bytes @ later, s''))))"
  by pat_completeness auto
termination
proof (relation "measure (\<lambda>(avails, s). length (rd_r s))")
  show "wf (measure (\<lambda>(avails, s). length (rd_r s)))" by simp
next
  fix avails s x2 x y bytes e s'
  assume "ctlreader_Read copy_buffer (next_avail avails) s = Done x2"
    and "(x, y) = x2" and "(bytes, e) = x" and "e = None"
  then have "ctlreader_Read copy_buffer (next_avail avails) s = Done ((bytes, None), y)"
    by simp
  from ctlreader_Read_shorter [OF this] have "length (rd_r y) < length (rd_r s)"
    by (simp add: copy_buffer_def)
  then show "((tl avails, y), avails, s) \<in> measure (\<lambda>(avails, s). length (rd_r s))"
    by simp
qed

declare xstreamto_loop.simps [simp del]

definition xstreamto :: "nat list \<Rightarrow> string \<Rightarrow> (string \<times> ctlreader) exec" where
  "xstreamto avails r = xstreamto_loop avails (reader r)"

text \<open>
  The stream on the wire, in the words of the claim: for each write its count line
  and its bytes, then the count line \<open>0\<close>; and the acknowledgements of the peer, one
  line \<open>ok\<close> for each write.
\<close>

definition frame :: "string \<Rightarrow> string" where
  "frame buf = Itoa (length buf) @ [nl] @ buf"

definition wire :: "string list \<Rightarrow> string" where
  "wire chunks = concat (map frame chunks) @ ''0'' @ [nl]"

definition ok_line :: string where
  "ok_line = ''ok'' @ [nl]"

definition acks :: "nat \<Rightarrow> string" where
  "acks n = concat (replicate n ok_line)"

text \<open>What a read of the stream gives with \<open>bytes\<close> read before it.\<close>

definition prepend :: "string \<Rightarrow> (string \<times> ctlreader) exec \<Rightarrow> (string \<times> ctlreader) exec" where
  "prepend bytes r =
     (case r of Aborts msg \<Rightarrow> Aborts msg | Done (later, s) \<Rightarrow> Done (bytes @ later, s))"

text \<open>A buffer of 2 GiB, the first length that is no 32-bit signed number.\<close>

definition two_gib :: string where
  "two_gib = replicate 2147483648 CHR ''x''"

section \<open>Fetching an MTA-STS policy (mtasts/mtasts.go)\<close>

text \<open>
  \<open>FetchPolicy\<close> works through Go's packages context and net/http, modelled here
  from their documentation. A context is its deadline, an absolute time in
  nanoseconds, if it has one; \<open>context.WithTimeout(parent, d)\<close> at time \<open>now\<close> gives
  the deadline \<open>now + d\<close>, unless the parent's is earlier.
\<close>

record Context =
  Deadline :: "int option"

definition WithTimeout :: "int \<Rightarrow> Context \<Rightarrow> int \<Rightarrow> Context" where
  "WithTimeout now parent timeout =
     (case Deadline parent of
        None \<Rightarrow> parent\<lparr>Deadline := Some (now + timeout)\<rparr>
      | Some t \<Rightarrow> parent\<lparr>Deadline := Some (min t (now + timeout))\<rparr>)"

definition expired :: "Context \<Rightarrow> int \<Rightarrow> bool" where
  "expired ctx t = (case Deadline ctx of None \<Rightarrow> False | Some dl \<Rightarrow> dl < t)"

definition Minute :: int where
  "Minute = 60 * 1000000000"

text \<open>
  What the remote side does with one request: it answers with a response, whose
  header is complete at \<open>HeaderAt\<close> and whose body, \<open>Body\<close> followed by the read
  error \<open>BodyErr\<close> if any, is complete at \<open>BodyAt\<close>; or it answers at time \<open>t\<close> with
  a redirect to a location; or the request fails at time \<open>t\<close> with an error (no
  such host, no connection, a certificate that does not verify). The remote side as
  a whole is the list of its answers to the successive requests.
\<close>

record Response =
  StatusCode :: int
  Status :: string
  Body :: string
  BodyErr :: "error option"
  HeaderAt :: int
  BodyAt :: int

datatype http_answer = Responds Response | Redirects string int | Fails error int

definition DeadlineExceeded :: error where
  "DeadlineExceeded = Err ''context deadline exceeded''"

text \<open>
  \<open>http.Client.Do\<close>: the request is sent; an answer after the deadline of the
  request's context is an error; before a redirect is followed \<open>CheckRedirect\<close> is
  asked, and when it returns an error \<open>Do\<close> returns that error, in a \<open>url.Error\<close>,
  and sends nothing more. The second component is the list of the URLs requested.
\<close>

fun Client_Do ::
  "(string \<Rightarrow> string list \<Rightarrow> error option) \<Rightarrow> Context \<Rightarrow> http_answer list \<Rightarrow> string list \<Rightarrow>
   string \<Rightarrow> (error + Response) \<times> string list" where
  "Client_Do CheckRedirect ctx [] via url =
     (Inl (URLError (Err ''no answer'')), via @ [url])"
| "Client_Do CheckRedirect ctx (a # answers) via url =
     (case a of
        Fails x t \<Rightarrow>
          (Inl (URLError (if expired ctx t then DeadlineExceeded else x)), via @ [url])
      | Responds resp \<Rightarrow>
          if expired ctx (HeaderAt resp) then (Inl (URLError DeadlineExceeded), via @ [url])
          else (Inr resp, via @ [url])
      | Redirects location t \<Rightarrow>
          if expired ctx t then (Inl (URLError DeadlineExceeded), via @ [url])
          else
            (case CheckRedirect location (via @ [url]) of
               Some x \<Rightarrow> (Inl (URLError x), via @ [url])
             | None \<Rightarrow> Client_Do CheckRedirect ctx answers (via @ [url]) location))"

text \<open>
  Reading a response body to its end under the context of the request: past the
  deadline the read fails.
\<close>

definition read_Body :: "Context \<Rightarrow> Response \<Rightarrow> string \<times> error option" where
  "read_Body ctx resp =
     (if expired ctx (BodyAt resp) then (Body resp, Some DeadlineExceeded)
      else (Body resp, BodyErr resp))"

text \<open>
  Modelled from the spec: \<open>moxio.LimitReader\<close> is not among the sources verified here. The
  comment of \<open>FetchPolicy\<close> says that policies longer than 64KB result in a syntax
  error, and the spec that a policy fetch is at most 64 KiB: reading all of a source
  through a limit reader fails with the limit error when the source has more than
  \<open>Limit\<close> bytes, and otherwise gives what the source gives.
\<close>

definition LimitReader_ReadAll :: "nat \<Rightarrow> string \<times> error option \<Rightarrow> error + string" where
  "LimitReader_ReadAll Limit src =
     (case src of
        (bytes, x) \<Rightarrow>
          if length bytes > Limit then Inl ErrLimit
          else (case x of Some x' \<Rightarrow> Inl x' | None \<Rightarrow> Inr bytes))"

text \<open>
  The variable \<open>HTTPClient\<close>: a client whose \<open>CheckRedirect\<close> always returns an
  error.
\<close>

definition HTTPClient_CheckRedirect :: "string \<Rightarrow> string list \<Rightarrow> error option" where
  "HTTPClient_CheckRedirect req via = Some (Err ''redirect not allowed for MTA-STS policies'')"

text \<open>
  What \<open>FetchPolicy\<close> takes from outside: the clock, \<open>dns.Domain.Name\<close>,
  \<open>http.NewRequestWithContext\<close> (which fails on a URL it cannot parse), the answers
  of the remote side, and \<open>ParsePolicy\<close>, which is in another file of the package.
\<close>

record fetch_env =
  Now :: int
  Domain_Name :: "dns_Domain \<Rightarrow> string"
  NewRequestWithContext :: "string \<Rightarrow> error option"
  Answers :: "http_answer list"
  ParsePolicy :: "string \<Rightarrow> error + Policy"

text \<open>
  \<open>FetchPolicy\<close> returns its three results, \<open>policy\<close>, \<open>policyText\<close> and \<open>rerr\<close>;
  the model adds the list of the URLs requested.
\<close>

definition fetch_ctx :: "fetch_env \<Rightarrow> Context \<Rightarrow> Context" where
  "fetch_ctx e ctx = WithTimeout (Now e) ctx Minute"

definition FetchPolicy ::
  "fetch_env \<Rightarrow> Context \<Rightarrow> dns_Domain \<Rightarrow> (Policy option \<times> string \<times> error option) \<times> string list" where
  "FetchPolicy e ctx domain =
     (let ctx' = fetch_ctx e ctx;
          url = ''https://mta-sts.'' @ Domain_Name e domain @ ''/.well-known/mta-sts.txt''
      in case NewRequestWithContext e url of
           Some x \<Rightarrow> ((None, '''', Some (Wrapped2 ''%w: http request: %s'' ErrPolicyFetch x)), [])
         | None \<Rightarrow>
             (case Client_Do HTTPClient_CheckRedirect ctx' (Answers e) [] url of
                (Inl x, requested) \<Rightarrow>
                  if IsNotFound x then ((None, '''', Some ErrNoPolicy), requested)
                  else ((None, '''', Some (Wrapped2 ''%w: http get: %s'' ErrPolicyFetch x)),
                        requested)
              | (Inr resp, requested) \<Rightarrow>
                  if StatusCode resp = 404 then ((None, '''', Some ErrNoPolicy), requested)
                  else if StatusCode resp \<noteq> 200 then
                    ((None, '''',
                      Some (Wrapped (''%w: http status '' @ Status resp @
                                     '' while status 200 is required'') ErrPolicyFetch)),
                     requested)
                  else
                    (case LimitReader_ReadAll (64 * 1024) (read_Body ctx' resp) of
                       Inl x \<Rightarrow>
                         ((None, '''', Some (Wrapped2 ''%w: reading policy: %s'' ErrPolicySyntax x)),
                          requested)
                     | Inr buf \<Rightarrow>
                         (case ParsePolicy e buf of
                            Inl x \<Rightarrow>
                              ((None, buf, Some (Wrapped ''parsing policy: %w'' x)), requested)
                          | Inr policy \<Rightarrow> ((Some policy, buf, None), requested)))))"

text \<open>The policy, the error and the requests of a fetch.\<close>

definition fetch_policy :: "fetch_env \<Rightarrow> Context \<Rightarrow> dns_Domain \<Rightarrow> Policy option" where
  "fetch_policy e ctx domain = fst (fst (FetchPolicy e ctx domain))"

definition fetch_rerr :: "fetch_env \<Rightarrow> Context \<Rightarrow> dns_Domain \<Rightarrow> error option" where
  "fetch_rerr e ctx domain = snd (snd (fst (FetchPolicy e ctx domain)))"

definition fetch_requested :: "fetch_env \<Rightarrow> Context \<Rightarrow> dns_Domain \<Rightarrow> string list" where
  "fetch_requested e ctx domain = snd (FetchPolicy e ctx domain)"

text \<open>
  Examples: a policy of 65537 bytes, one byte more than 64 KiB, and remote sides that
  answer in one second with a redirect followed by a policy, and with the long
  policy.
\<close>

definition example_fetch_env :: fetch_env where
  "example_fetch_env =
     \<lparr>Now = 0,
      Domain_Name = (\<lambda>dm. if Unicode dm = '''' then ASCII dm else Unicode dm),
      NewRequestWithContext = (\<lambda>url. None),
      Answers = [],
      ParsePolicy = (\<lambda>text. Inr \<lparr>Version = ''STSv1'', Mode = ''enforce'', MX = [],
                                    MaxAgeSeconds = 86400, Extensions = []\<rparr>)\<rparr>"

definition ok_response :: "string \<Rightarrow> Response" where
  "ok_response text =
     \<lparr>StatusCode = 200, Status = ''200 OK'', Body = text, BodyErr = None,
      HeaderAt = 1000000000, BodyAt = 1000000000\<rparr>"

definition redirecting_env :: fetch_env where
  "redirecting_env =
     example_fetch_env
       \<lparr>Answers := [Redirects ''https://elsewhere.example/mta-sts.txt'' 1000000000,
                    Responds (ok_response ''version: STSv1'')]\<rparr>"

definition long_policy_env :: fetch_env where
  "long_policy_env =
     example_fetch_env\<lparr>Answers := [Responds (ok_response (replicate 65537 CHR ''x''))]\<rparr>"

definition short_policy_env :: fetch_env where
  "short_policy_env =
     example_fetch_env\<lparr>Answers := [Responds (ok_response ''version: STSv1'')]\<rparr>"

definition example_domain :: dns_Domain where
  "example_domain = \<lparr>ASCII = ''example.org'', Unicode = ''''\<rparr>"

section \<open>The incoming-message analysis (smtpserver/analyze.go)\<close>

subsection \<open>Data the analysis reads\<close>

text \<open>
  The result enumerations of the packages dkim, dmarc, iprev, dnsbl and store are
  declared outside the sources verified here. The analysis compares them with the named
  constants below only; the other constructors stand for the remaining values. The
  signature and the record of a DKIM result are taken as plain structs: the analysis
  reads them only in a result whose status is pass.
\<close>

datatype dkimStatus = dkimStatusPass | dkimStatusOther string
datatype dmarcStatus = dmarcStatusPass | dmarcStatusOther string
datatype iprevStatus = iprevStatusPass | iprevStatusOther string
datatype dnsblStatus = dnsblStatusFail | dnsblStatusOther string
datatype Validation = ValidationFail | ValidationSoftfail | ValidationOther string

record dkimSig =
  sig_Domain :: dns_Domain
  sig_Length :: "64 word"

record dkimRecord =
  Services :: "string list"

record dkimResult =
  dkim_Status :: dkimStatus
  dkim_Sig :: dkimSig
  dkim_Record :: dkimRecord

record dmarcResult =
  dmarc_Reject :: bool
  dmarc_Status :: dmarcStatus

text \<open>
  Of \<open>dmarcrpt.Feedback\<close> the analysis reads \<open>PolicyPublished.Domain\<close> and
  \<open>ReportMetadata.DateRange.End\<close> (an int64 of Unix seconds); of \<open>tlsrpt.Report\<close>
  it reads the \<open>Policy.Domain\<close> of each entry of \<open>Policies\<close>. A TLS report carries
  a date range too (\<open>end-datetime\<close> in the report of \<open>TestTLSReport\<close>), kept here as
  Unix seconds.
\<close>

record Feedback =
  PolicyPublished_Domain :: string
  DateRange_End :: "64 word"

record tlsrptResult =
  Policy_Domain :: string

record Report =
  Policies :: "tlsrptResult list"
  tls_DateRange_End :: "64 word"

record Message =
  MailFromValidated :: bool
  MailFromDomain :: string
  MailFromValidation :: Validation
  RemoteIP :: string
  MsgPrefix :: string
  Size :: "64 word"
  MailboxID :: "64 word"
  MailboxDestinedID :: "64 word"

record Ruleset =
  ListAllowDNSDomain :: dns_Domain
  rs_Mailbox :: string

record Destination =
  Mailbox :: string
  DMARCReports :: bool
  TLSReports :: bool

record rcptAccount =
  destination :: Destination
  canonicalAddress :: string

record Address =
  Localpart :: string
  addr_Domain :: dns_Domain

record delivery =
  m :: Message
  dataFile :: string
  rcptAcc :: rcptAccount
  msgFrom :: Address
  dnsBLs :: "dns_Domain list"
  dmarcUse :: bool
  dmarcResult :: dmarcResult
  dkimResults :: "dkimResult list"
  iprevStatus :: iprevStatus

record analysis =
  accept :: bool
  code :: int
  secode :: string
  userError :: bool
  errmsg :: string
  err :: "error option"
  dmarcReport :: "Feedback option"
  tlsReport :: "Report option"
  reason :: string

text \<open>
  \<open>analyze\<close> dereferences \<open>isjunk\<close>, a \<open>*bool\<close>, when the reputation is conclusive;
  on a nil pointer Go panics and \<open>analyze\<close> does not return.
\<close>

datatype outcome = Panic | Return analysis

subsection \<open>What the analysis calls outside this file\<close>

text \<open>
  Everything \<open>analyze\<close> calls is declared in other packages: the message store and
  the account, the report parsers, the configuration, the reputation engine, the
  junk filter, subjectpass, the DNSBL client and the clock. Their results are the
  fields of \<open>env\<close>, each a function of the arguments the call passes (the context
  and the logger apart). Go's float64 values are taken as real numbers: the one
  addition and the one subtraction \<open>analyze\<close> does are exact here.
\<close>

record env =
  MessageRuleset :: "Destination \<Rightarrow> Message \<Rightarrow> string \<Rightarrow> Ruleset option"
  IsZero :: "dns_Domain \<Rightarrow> bool"
  Name :: "dns_Domain \<Rightarrow> string"
  ParseMessageReport :: "string \<Rightarrow> error + Feedback"
  ParseDomain :: "string \<Rightarrow> error + dns_Domain"
  Conf_Domain :: "dns_Domain \<Rightarrow> bool"
  Now_Unix :: "64 word"
  ServiceAllowed :: "dkimRecord \<Rightarrow> string \<Rightarrow> bool"
  ParseMessage :: "string \<Rightarrow> error + Report"
  DB_Read :: "error option"
  MailboxFind :: "string \<Rightarrow> error + 64 word option"
  reputation :: "Message \<Rightarrow> bool option \<times> bool \<times> string \<times> error option"
  SubjectPass_Period :: "64 word"
  Subjectpass :: "string \<Rightarrow> string \<times> error option"
  Verify :: "string \<Rightarrow> string \<Rightarrow> 64 word \<Rightarrow> error option"
  OpenJunkFilter :: "error option"
  Threshold :: real
  ClassifyMessageReader :: "string \<Rightarrow> 64 word \<Rightarrow> real \<times> error option"
  jitterRand_Float64 :: real
  checkDNSBLHealth :: "dns_Domain \<Rightarrow> bool"
  Lookup :: "dns_Domain \<Rightarrow> string \<Rightarrow> dnsblStatus \<times> string \<times> error option"
  Generate :: "Address \<Rightarrow> string \<Rightarrow> string"
  Explanation :: string

subsection \<open>Constants\<close>

definition reasonListAllow :: string where "reasonListAllow = ''list-allow''"
definition reasonDMARCPolicy :: string where "reasonDMARCPolicy = ''dmarc-policy''"
definition reasonReputationError :: string where "reasonReputationError = ''reputation-error''"
definition reasonReporting :: string where "reasonReporting = ''reporting''"
definition reasonSPFPolicy :: string where "reasonSPFPolicy = ''spf-policy''"
definition reasonJunkClassifyError :: string where "reasonJunkClassifyError = ''junk-classify-error''"
definition reasonJunkFilterError :: string where "reasonJunkFilterError = ''junk-filter-error''"
definition reasonGiveSubjectpass :: string where "reasonGiveSubjectpass = ''give-subjectpass''"
definition reasonNoBadSignals :: string where "reasonNoBadSignals = ''no-bad-signals''"
definition reasonJunkContent :: string where "reasonJunkContent = ''junk-content''"
definition reasonJunkContentStrict :: string where "reasonJunkContentStrict = ''junk-content-strict''"
definition reasonDNSBlocklisted :: string where "reasonDNSBlocklisted = ''dns-blocklisted''"
definition reasonSubjectpass :: string where "reasonSubjectpass = ''subjectpass''"
definition reasonSubjectpassError :: string where "reasonSubjectpassError = ''subjectpass-error''"
definition reasonIPrev :: string where "reasonIPrev = ''iprev''"

text \<open>
  Modelled from the spec: the reply codes and enhanced status codes of package smtp
  are not among the sources verified here. The spec gives the three pairs the analysis emits:
  \<open>550 5.7.26\<close> (dmarc policy), \<open>550 5.7.1\<close> (subjectpass hint) and \<open>451 5.3.0\<close>
  (local error and every soft reject).
\<close>

definition C550MailboxUnavail :: int where "C550MailboxUnavail = 550"
definition C451LocalErr :: int where "C451LocalErr = 451"
definition SePol7MultiAuthFails26 :: string where "SePol7MultiAuthFails26 = ''5.7.26''"
definition SePol7DeliveryUnauth1 :: string where "SePol7DeliveryUnauth1 = ''5.7.1''"
definition SeSys3Other0 :: string where "SeSys3Other0 = ''5.3.0''"

text \<open>
  Modelled from the spec: the type \<open>reputationMethod\<close> and its constants are declared
  with the reputation engine, which is not among the sources verified here. \<open>analyze\<close> converts
  a method to a string for the reason; the values are the method keys of the spec's
  reputation table.
\<close>

type_synonym reputationMethod = string

definition methodDKIMSPF :: reputationMethod where "methodDKIMSPF = ''dkim-spf''"
definition methodIP1 :: reputationMethod where "methodIP1 = ''ip1''"
definition methodIP2 :: reputationMethod where "methodIP2 = ''ip2''"
definition methodIP3 :: reputationMethod where "methodIP3 = ''ip3''"
definition methodNone :: reputationMethod where "methodNone = ''none''"

subsection \<open>The steps of analyze\<close>

text \<open>
  The closure \<open>reject\<close> of \<open>analyze\<close>, and the accepting composite literals
  \<open>analysis{accept: true, ...}\<close>, whose unnamed fields are Go's zero values.
\<close>

definition reject :: "int \<Rightarrow> string \<Rightarrow> string \<Rightarrow> error option \<Rightarrow> string \<Rightarrow> analysis" where
  "reject code' secode' errmsg' err' reason' =
     \<lparr>accept = False, code = code', secode = secode', userError = (err' = None),
      errmsg = errmsg', err = err', dmarcReport = None, tlsReport = None, reason = reason'\<rparr>"

definition accepted :: "Feedback option \<Rightarrow> Report option \<Rightarrow> string \<Rightarrow> analysis" where
  "accepted dmarcReport' tlsReport' reason' =
     \<lparr>accept = True, code = 0, secode = '''', userError = False,
      errmsg = '''', err = None, dmarcReport = dmarcReport', tlsReport = tlsReport',
      reason = reason'\<rparr>"

text \<open>
  Modelled from the spec: \<open>store.FileMsgReader\<close> is not among the sources verified here. By the
  spec's data model \<open>msg_prefix\<close> is the bytes prepended to the on-disk file to form
  the full message.
\<close>

definition FileMsgReader :: "string \<Rightarrow> string \<Rightarrow> string" where
  "FileMsgReader prefix file = prefix @ file"

text \<open>Lines 78 to 89: the mailing-list allowance. The loop returns at the first match.\<close>

fun listAllow_dkim :: "dns_Domain \<Rightarrow> dkimResult list \<Rightarrow> bool" where
  "listAllow_dkim ld [] = False"
| "listAllow_dkim ld (r # rs) =
     (if dkim_Status r = dkimStatusPass \<and> sig_Domain (dkim_Sig r) = ld then True
      else listAllow_dkim ld rs)"

definition listAllow :: "env \<Rightarrow> delivery \<Rightarrow> Ruleset option \<Rightarrow> bool" where
  "listAllow e d rs =
     (case rs of
        None \<Rightarrow> False
      | Some r \<Rightarrow>
          if IsZero e (ListAllowDNSDomain r) then False
          else
            (let ld = ListAllowDNSDomain r in
             if MailFromValidated (m d) \<and> Name e ld = MailFromDomain (m d) then True
             else listAllow_dkim ld (dkimResults d)))"

text \<open>
  Lines 98 to 114: the DMARC aggregate report. \<open>time.Now().Unix()+60\<close> is an int64
  addition, which wraps; the comparison is signed.
\<close>

definition dmarc_report :: "env \<Rightarrow> delivery \<Rightarrow> Feedback option" where
  "dmarc_report e d =
     (if DMARCReports (destination (rcptAcc d)) then
        (if dmarc_Status (dmarcResult d) \<noteq> dmarcStatusPass then None
         else
           (case ParseMessageReport e (FileMsgReader (MsgPrefix (m d)) (dataFile d)) of
              Inl x \<Rightarrow> None
            | Inr report \<Rightarrow>
                (case ParseDomain e (PolicyPublished_Domain report) of
                   Inl x \<Rightarrow> None
                 | Inr dm \<Rightarrow>
                     if \<not> Conf_Domain e dm then None
                     else if sint (Now_Unix e + 60) < sint (DateRange_End report) then None
                     else Some report)))
      else None)"

text \<open>Lines 118 to 154: the TLS report, with its two loops.\<close>

fun tls_dkim_ok :: "env \<Rightarrow> dns_Domain \<Rightarrow> dkimResult list \<Rightarrow> bool" where
  "tls_dkim_ok e fromdom [] = False"
| "tls_dkim_ok e fromdom (r # rs) =
     (if dkim_Status r = dkimStatusPass \<and> sig_Domain (dkim_Sig r) = fromdom \<and>
         sint (sig_Length (dkim_Sig r)) < 0 \<and> ServiceAllowed e (dkim_Record r) ''tlsrpt''
      then True
      else tls_dkim_ok e fromdom rs)"

fun tls_known :: "env \<Rightarrow> tlsrptResult list \<Rightarrow> bool" where
  "tls_known e [] = False"
| "tls_known e (p # ps) =
     (case ParseDomain e (Policy_Domain p) of
        Inl x \<Rightarrow> tls_known e ps
      | Inr dm \<Rightarrow> if Conf_Domain e dm then True else tls_known e ps)"

definition tls_report :: "env \<Rightarrow> delivery \<Rightarrow> Report option" where
  "tls_report e d =
     (if TLSReports (destination (rcptAcc d)) then
        (if \<not> tls_dkim_ok e (addr_Domain (msgFrom d)) (dkimResults d) then None
         else
           (case ParseMessage e (FileMsgReader (MsgPrefix (m d)) (dataFile d)) of
              Inl x \<Rightarrow> None
            | Inr report \<Rightarrow> if \<not> tls_known e (Policies report) then None else Some report))
      else None)"

text \<open>
  Lines 163 to 198: the read transaction. \<open>DB.Read\<close> returns the error of the
  function it runs, or its own (\<open>DB_Read\<close>) when the transaction cannot start. The
  function sets the mailbox ids of the message before it asks for the reputation.
\<close>

definition reputation_read ::
  "env \<Rightarrow> delivery \<Rightarrow> Ruleset option \<Rightarrow> error + (bool option \<times> bool \<times> reputationMethod)" where
  "reputation_read e d rs =
     (case DB_Read e of
        Some x \<Rightarrow> Inl x
      | None \<Rightarrow>
          (let mailbox = Mailbox (destination (rcptAcc d));
               mailbox = (if mailbox = '''' then ''Inbox'' else mailbox);
               mailbox = (case rs of Some r \<Rightarrow> rs_Mailbox r | None \<Rightarrow> mailbox)
           in case MailboxFind e mailbox of
                Inl x \<Rightarrow> Inl (Wrapped ''finding destination mailbox: '' x)
              | Inr mb \<Rightarrow>
                  (let m' = (case mb of
                               Some mbID \<Rightarrow> (m d)\<lparr>MailboxID := mbID, MailboxDestinedID := mbID\<rparr>
                             | None \<Rightarrow> m d)
                   in case reputation e m' of
                        (isjunk, conclusive, method, x) \<Rightarrow>
                          (case x of
                             Some x' \<Rightarrow> Inl x'
                           | None \<Rightarrow> Inr (isjunk, conclusive, method)))))"

text \<open>The case list of the two \<open>switch method\<close> statements, lines 215 to 228.\<close>

definition method_without_history :: "reputationMethod \<Rightarrow> bool" where
  "method_without_history method \<longleftrightarrow>
     method = methodDKIMSPF \<or> method = methodIP1 \<or> method = methodIP2 \<or>
     method = methodIP3 \<or> method = methodNone"

text \<open>
  Lines 235 to 249: the subjectpass token. \<open>Inl\<close> is an early return of \<open>analyze\<close>,
  \<open>Inr\<close> the value of \<open>subjectpassKey\<close> with which the analysis goes on.
\<close>

definition subjectpass_step :: "env \<Rightarrow> delivery \<Rightarrow> analysis + string" where
  "subjectpass_step e d =
     (if 0 < sint (SubjectPass_Period e) then
        (case Subjectpass e (canonicalAddress (rcptAcc d)) of
           (subjectpassKey, x) \<Rightarrow>
             (case x of
                Some x' \<Rightarrow>
                  Inl (reject C451LocalErr SeSys3Other0 ''error processing'' (Some x')
                         reasonSubjectpassError)
              | None \<Rightarrow>
                  if Verify e (dataFile d) subjectpassKey (SubjectPass_Period e) = None
                  then Inl (accepted None None reasonSubjectpass)
                  else Inr subjectpassKey))
      else Inr '''')"

text \<open>
  Lines 251 to 289: content classification. \<open>junk_threshold\<close> is the threshold after
  the jitter and the iprev adjustment; \<open>junk_step\<close> returns early (\<open>Inl\<close>) or gives
  the variables \<open>accept\<close>, \<open>junkSubjectpass\<close> and \<open>reason\<close>.
\<close>

definition junk_threshold :: "env \<Rightarrow> bool \<Rightarrow> real" where
  "junk_threshold e suspiciousIPrevFail =
     (let jitter = (jitterRand_Float64 e - 0.5) / 10;
          threshold = Threshold e + jitter
      in if suspiciousIPrevFail \<and> threshold > 0.25 then 0.25 else threshold)"

definition junk_reason :: "env \<Rightarrow> bool \<Rightarrow> string" where
  "junk_reason e suspiciousIPrevFail =
     (let jitter = (jitterRand_Float64 e - 0.5) / 10;
          threshold = Threshold e + jitter
      in if suspiciousIPrevFail \<and> threshold > 0.25 then reasonJunkContentStrict
         else reasonJunkContent)"

definition junk_step :: "env \<Rightarrow> delivery \<Rightarrow> bool \<Rightarrow> analysis + (bool \<times> bool \<times> string)" where
  "junk_step e d suspiciousIPrevFail =
     (case OpenJunkFilter e of
        None \<Rightarrow>
          (case ClassifyMessageReader e (FileMsgReader (MsgPrefix (m d)) (dataFile d))
                  (Size (m d)) of
             (contentProb, x) \<Rightarrow>
               (case x of
                  Some x' \<Rightarrow>
                    Inl (reject C451LocalErr SeSys3Other0 ''error processing'' (Some x')
                           reasonJunkClassifyError)
                | None \<Rightarrow>
                    (let threshold = junk_threshold e suspiciousIPrevFail
                     in Inr (contentProb \<le> threshold, contentProb < threshold - 0.2,
                             junk_reason e suspiciousIPrevFail))))
      | Some x \<Rightarrow>
          if x \<noteq> ErrNoJunkFilter then
            Inl (reject C451LocalErr SeSys3Other0 ''error processing'' (Some x)
                   reasonJunkFilterError)
          else Inr (True, False, reasonNoBadSignals))"

text \<open>
  Lines 294 to 324: the DNS blocklists. \<open>blocked\<close> and the loop return, next to their
  result, the zones for which \<open>dnsbl.Lookup\<close> was called, in order.
\<close>

definition blocked :: "env \<Rightarrow> delivery \<Rightarrow> dns_Domain \<Rightarrow> bool \<times> dns_Domain list" where
  "blocked e d zone =
     (if \<not> checkDNSBLHealth e zone then (False, [])
      else
        (case Lookup e zone (RemoteIP (m d)) of
           (status, expl, x) \<Rightarrow>
             if status = dnsblStatusFail then (True, [zone]) else (False, [zone])))"

fun dnsbl_loop :: "env \<Rightarrow> delivery \<Rightarrow> dns_Domain list \<Rightarrow> bool \<times> dns_Domain list" where
  "dnsbl_loop e d [] = (False, [])"
| "dnsbl_loop e d (zone # zones) =
     (case blocked e d zone of
        (b, looked) \<Rightarrow>
          if b then (True, looked)
          else (case dnsbl_loop e d zones of (b', looked') \<Rightarrow> (b', looked @ looked')))"

text \<open>
  Lines 326 to 336: the final step, from the variables \<open>accept\<close>, \<open>dnsblocklisted\<close>,
  \<open>junkSubjectpass\<close>, \<open>reason\<close>, \<open>subjectpassKey\<close> and \<open>method\<close>.
\<close>

definition final_step ::
  "env \<Rightarrow> delivery \<Rightarrow> reputationMethod \<Rightarrow> string \<Rightarrow> bool \<Rightarrow> bool \<Rightarrow> bool \<Rightarrow> string \<Rightarrow> analysis" where
  "final_step e d method subjectpassKey accept' dnsblocklisted junkSubjectpass reason' =
     (if accept' then accepted None None reasonNoBadSignals
      else if subjectpassKey \<noteq> '''' \<and> dmarc_Status (dmarcResult d) = dmarcStatusPass \<and>
              method = methodNone \<and> (dnsblocklisted \<or> junkSubjectpass)
      then reject C550MailboxUnavail SePol7DeliveryUnauth1
             (Explanation e @ Generate e (msgFrom d) subjectpassKey) None reasonGiveSubjectpass
      else reject C451LocalErr SeSys3Other0 ''error processing'' None reason')"

text \<open>
  Lines 294 to 337: the blocklists are consulted when the message is still accepted,
  then the final step decides.
\<close>

definition analyze_dnsbl ::
  "env \<Rightarrow> delivery \<Rightarrow> reputationMethod \<Rightarrow> string \<Rightarrow> bool \<Rightarrow> bool \<Rightarrow> string \<Rightarrow>
   outcome \<times> dns_Domain list" where
  "analyze_dnsbl e d method subjectpassKey accept' junkSubjectpass reason' =
     (case (if accept' then dnsbl_loop e d (dnsBLs d) else (False, [])) of
        (dnsblocklisted, looked) \<Rightarrow>
          (Return
             (final_step e d method subjectpassKey
                (accept' \<and> \<not> dnsblocklisted) dnsblocklisted junkSubjectpass
                (if dnsblocklisted then reasonDNSBlocklisted else reason')),
           looked))"

text \<open>
  Lines 213 to 292: what \<open>analyze\<close> does once the reputation is inconclusive and no
  report was extracted: the SPF gate, the iprev amplifier, subjectpass and the
  content classification.
\<close>

definition spf_gate :: "reputationMethod \<Rightarrow> delivery \<Rightarrow> bool" where
  "spf_gate method d \<longleftrightarrow>
     method_without_history method \<and>
     (MailFromValidation (m d) = ValidationFail \<or>
      MailFromValidation (m d) = ValidationSoftfail)"

definition suspiciousIPrevFail :: "reputationMethod \<Rightarrow> delivery \<Rightarrow> bool" where
  "suspiciousIPrevFail method d \<longleftrightarrow>
     method_without_history method \<and> iprevStatus d \<noteq> iprevStatusPass"

definition analyze_content ::
  "env \<Rightarrow> delivery \<Rightarrow> bool option \<Rightarrow> reputationMethod \<Rightarrow> outcome \<times> dns_Domain list" where
  "analyze_content e d isjunk method =
     (if spf_gate method d
      then (Return (reject C451LocalErr SeSys3Other0 ''error processing'' None reasonSPFPolicy), [])
      else if suspiciousIPrevFail method d \<and> isjunk = Some True
      then (Return (reject C451LocalErr SeSys3Other0 ''error processing'' None reasonIPrev), [])
      else
        (case subjectpass_step e d of
           Inl a \<Rightarrow> (Return a, [])
         | Inr subjectpassKey \<Rightarrow>
             (case junk_step e d (suspiciousIPrevFail method d) of
                Inl a \<Rightarrow> (Return a, [])
              | Inr (accept', junkSubjectpass, reason') \<Rightarrow>
                  analyze_dnsbl e d method subjectpassKey accept' junkSubjectpass reason')))"

text \<open>
  \<open>analyze\<close>, lines 69 to 212, then \<open>analyze_content\<close>. The second component is the
  list of zones looked up in a DNS blocklist.
\<close>

definition analyze :: "env \<Rightarrow> delivery \<Rightarrow> outcome \<times> dns_Domain list" where
  "analyze e d =
     (let rs = MessageRuleset e (destination (rcptAcc d)) (m d)
                 (FileMsgReader (MsgPrefix (m d)) (dataFile d))
      in if listAllow e d rs then (Return (accepted None None reasonListAllow), [])
         else if dmarcUse d \<and> dmarc_Reject (dmarcResult d)
         then (Return (reject C550MailboxUnavail SePol7MultiAuthFails26
                         ''rejecting per dmarc policy'' None reasonDMARCPolicy), [])
         else
           (let dmarcReport' = dmarc_report e d;
                tlsReport' = tls_report e d
            in case reputation_read e d rs of
                 Inl x \<Rightarrow>
                   (Return (reject C451LocalErr SeSys3Other0 ''error processing'' (Some x)
                              reasonReputationError), [])
               | Inr (isjunk, conclusive, method) \<Rightarrow>
                   if conclusive then
                     (case isjunk of
                        None \<Rightarrow> (Panic, [])
                      | Some j \<Rightarrow>
                          if \<not> j then (Return (accepted dmarcReport' tlsReport' method), [])
                          else (Return (reject C451LocalErr SeSys3Other0 ''error processing''
                                          None method), []))
                   else if dmarcReport' \<noteq> None \<or> tlsReport' \<noteq> None
                   then (Return (accepted dmarcReport' tlsReport' reasonReporting), [])
                   else analyze_content e d isjunk method))"

subsection \<open>Path conditions of analyze\<close>

text \<open>
  The claims speak of deliveries that reach a step of \<open>analyze\<close>. Each predicate
  below says that no earlier step returned, and names the values of the variables
  the later steps read.
\<close>

definition ruleset_of :: "env \<Rightarrow> delivery \<Rightarrow> Ruleset option" where
  "ruleset_of e d =
     MessageRuleset e (destination (rcptAcc d)) (m d) (FileMsgReader (MsgPrefix (m d)) (dataFile d))"


definition reaches_reputation :: "env \<Rightarrow> delivery \<Rightarrow> bool" where
  "reaches_reputation e d \<longleftrightarrow>
     \<not> listAllow e d (ruleset_of e d) \<and> \<not> (dmarcUse d \<and> dmarc_Reject (dmarcResult d))"

definition reaches_content :: "env \<Rightarrow> delivery \<Rightarrow> bool option \<Rightarrow> reputationMethod \<Rightarrow> bool" where
  "reaches_content e d isjunk method \<longleftrightarrow>
     reaches_reputation e d \<and>
     reputation_read e d (ruleset_of e d) = Inr (isjunk, False, method) \<and>
     dmarc_report e d = None \<and> tls_report e d = None"

definition reaches_classification ::
  "env \<Rightarrow> delivery \<Rightarrow> bool option \<Rightarrow> reputationMethod \<Rightarrow> string \<Rightarrow> bool" where
  "reaches_classification e d isjunk method subjectpassKey \<longleftrightarrow>
     reaches_content e d isjunk method \<and> \<not> spf_gate method d \<and>
     \<not> (suspiciousIPrevFail method d \<and> isjunk = Some True) \<and>
     subjectpass_step e d = Inr subjectpassKey"

definition accepted_after_classification ::
  "env \<Rightarrow> delivery \<Rightarrow> bool option \<Rightarrow> reputationMethod \<Rightarrow> string \<Rightarrow> bool \<Rightarrow> string \<Rightarrow> bool" where
  "accepted_after_classification e d isjunk method subjectpassKey junkSubjectpass reason' \<longleftrightarrow>
     reaches_classification e d isjunk method subjectpassKey \<and>
     junk_step e d (suspiciousIPrevFail method d) = Inr (True, junkSubjectpass, reason')"

text \<open>
  A zone lists the remote IP when its lookup gives \<open>dnsbl.StatusFail\<close>. In the words
  of the claim, the zones consulted are the healthy ones, in order, up to and with
  the first that lists the IP.
\<close>

definition listed :: "env \<Rightarrow> delivery \<Rightarrow> dns_Domain \<Rightarrow> bool" where
  "listed e d zone \<longleftrightarrow> fst (Lookup e zone (RemoteIP (m d))) = dnsblStatusFail"


text \<open>The shapes of the values \<open>analyze\<close> returns.\<close>

definition rejection_shape :: "analysis \<Rightarrow> bool" where
  "rejection_shape a \<longleftrightarrow>
     (\<exists>x r. a = reject C451LocalErr SeSys3Other0 ''error processing'' x r) \<or>
     a = reject C550MailboxUnavail SePol7MultiAuthFails26 ''rejecting per dmarc policy'' None
           reasonDMARCPolicy \<or>
     (\<exists>msg. a = reject C550MailboxUnavail SePol7DeliveryUnauth1 msg None reasonGiveSubjectpass)"

definition verdict_shape :: "analysis \<Rightarrow> bool" where
  "verdict_shape a \<longleftrightarrow> (\<exists>dr tr r. a = accepted dr tr r) \<or> rejection_shape a"

text \<open>An analysis that carries no report.\<close>

definition no_reports :: "analysis \<Rightarrow> bool" where
  "no_reports a \<longleftrightarrow> dmarcReport a = None \<and> tlsReport a = None"

subsection \<open>Example deliveries\<close>

text \<open>
  The setting of the tests of package smtpserver: a sender \<open>remote@example.org\<close> at
  127.0.0.10 without history, a recipient \<open>mjl@mox.example\<close>, DMARC and iprev pass,
  the local domain \<open>mox.example\<close>, no junk filter and no subjectpass.
\<close>

definition test_env :: env where
  "test_env =
     \<lparr>MessageRuleset = (\<lambda>dest msg data. None),
      IsZero = (\<lambda>dm. ASCII dm = '''' \<and> Unicode dm = ''''),
      Name = (\<lambda>dm. if Unicode dm = '''' then ASCII dm else Unicode dm),
      ParseMessageReport = (\<lambda>data. Inl (Err ''not a dmarc report'')),
      ParseDomain = (\<lambda>s. Inr \<lparr>ASCII = s, Unicode = ''''\<rparr>),
      Conf_Domain = (\<lambda>dm. ASCII dm = ''mox.example''),
      Now_Unix = 1700000000,
      ServiceAllowed = (\<lambda>r s. Services r = [] \<or> s \<in> set (Services r)),
      ParseMessage = (\<lambda>data. Inl (Err ''not a tls report'')),
      DB_Read = None,
      MailboxFind = (\<lambda>name. Inr (Some 1)),
      reputation = (\<lambda>msg. (None, False, methodNone, None)),
      SubjectPass_Period = 0,
      Subjectpass = (\<lambda>addr. (''key'', None)),
      Verify = (\<lambda>data key period. Some (Err ''no token'')),
      OpenJunkFilter = Some ErrNoJunkFilter,
      Threshold = 0.5,
      ClassifyMessageReader = (\<lambda>data size. (0, None)),
      jitterRand_Float64 = 0.5,
      checkDNSBLHealth = (\<lambda>zone. ASCII zone = ''dnsbl.example''),
      Lookup = (\<lambda>zone ip. if ASCII zone = ''dnsbl.example'' \<and> ip = ''127.0.0.10''
                         then (dnsblStatusFail, ''blocklisted'', None)
                         else (dnsblStatusOther ''pass'', '''', None)),
      Generate = (\<lambda>addr key. ''token''),
      Explanation = ''retry with this in the subject: ''\<rparr>"

definition test_delivery :: delivery where
  "test_delivery =
     \<lparr>m = \<lparr>MailFromValidated = True, MailFromDomain = ''example.org'',
           MailFromValidation = ValidationOther ''pass'', RemoteIP = ''127.0.0.10'',
           MsgPrefix = '''', Size = 4, MailboxID = 0, MailboxDestinedID = 0\<rparr>,
      dataFile = ''test'',
      rcptAcc = \<lparr>destination = \<lparr>Mailbox = '''', DMARCReports = False, TLSReports = False\<rparr>,
                 canonicalAddress = ''mjl@mox.example''\<rparr>,
      msgFrom = \<lparr>Localpart = ''remote'',
                 addr_Domain = \<lparr>ASCII = ''example.org'', Unicode = ''''\<rparr>\<rparr>,
      dnsBLs = [],
      dmarcUse = True,
      dmarcResult = \<lparr>dmarc_Reject = False, dmarc_Status = dmarcStatusPass\<rparr>,
      dkimResults = [],
      iprevStatus = iprevStatusPass\<rparr>"

text \<open>
  \<open>TestBlocklistedSubjectpass\<close>: the zone \<open>dnsbl.example\<close> lists the sender and the
  account has subjectpass with a period of one hour (in nanoseconds).
\<close>

definition blocklisted_delivery :: delivery where
  "blocklisted_delivery = test_delivery\<lparr>dnsBLs := [\<lparr>ASCII = ''dnsbl.example'', Unicode = ''''\<rparr>]\<rparr>"

definition subjectpass_env :: env where
  "subjectpass_env = test_env\<lparr>SubjectPass_Period := 3600000000000\<rparr>"

text \<open>
  A message of spammy content: the junk filter exists with threshold 0.5, the random
  number is 0.5 (no jitter) and the message classifies at 0.875. Subjectpass is
  configured, DMARC passes and the sender has no history.
\<close>

definition spam_env :: env where
  "spam_env = subjectpass_env\<lparr>OpenJunkFilter := None,
                               ClassifyMessageReader := (\<lambda>data size. (0.875, None))\<rparr>"

text \<open>
  A filter with the low threshold 0.125, a message that classifies at 0.1875, and a
  sender whose iprev check failed.
\<close>

definition low_threshold_env :: env where
  "low_threshold_env = test_env\<lparr>OpenJunkFilter := None, Threshold := 0.125,
                                ClassifyMessageReader := (\<lambda>data size. (0.1875, None))\<rparr>"

definition iprev_fail_delivery :: delivery where
  "iprev_fail_delivery = test_delivery\<lparr>iprevStatus := iprevStatusOther ''fail''\<rparr>"

text \<open>
  \<open>TestTLSReport\<close>, with a report whose date range ends a million seconds after the
  clock of \<open>test_env\<close>: the destination receives TLS reports, the message has a
  passing DKIM signature of the From domain, and the report names the local domain.
\<close>

definition future_tls_report :: Report where
  "future_tls_report = \<lparr>Policies = [\<lparr>Policy_Domain = ''mox.example''\<rparr>],
                         tls_DateRange_End = 1701000000\<rparr>"

definition tlsrpt_env :: env where
  "tlsrpt_env = test_env\<lparr>ParseMessage := (\<lambda>data. Inr future_tls_report)\<rparr>"

definition tlsrpt_delivery :: delivery where
  "tlsrpt_delivery =
     test_delivery
       \<lparr>rcptAcc := \<lparr>destination = \<lparr>Mailbox = '''', DMARCReports = False, TLSReports = True\<rparr>,
                    canonicalAddress = ''mjl@mox.example''\<rparr>,
        dkimResults := [\<lparr>dkim_Status = dkimStatusPass,
                         dkim_Sig = \<lparr>sig_Domain = \<lparr>ASCII = ''example.org'', Unicode = ''''\<rparr>,
                                     sig_Length = - 1\<rparr>,
                         dkim_Record = \<lparr>Services = []\<rparr>\<rparr>]\<rparr>"

text \<open>
  \<open>TestDMARCReport\<close>: the destination receives DMARC reports and the report is for
  the local domain, with a date range that ended before the clock of \<open>test_env\<close>.
\<close>

definition past_dmarc_report :: Feedback where
  "past_dmarc_report = \<lparr>PolicyPublished_Domain = ''mox.example'', DateRange_End = 1596499199\<rparr>"

definition dmarcrpt_env :: env where
  "dmarcrpt_env = test_env\<lparr>ParseMessageReport := (\<lambda>data. Inr past_dmarc_report)\<rparr>"

definition dmarcrpt_delivery :: delivery where
  "dmarcrpt_delivery =
     test_delivery
       \<lparr>rcptAcc := \<lparr>destination = \<lparr>Mailbox = '''', DMARCReports = True, TLSReports = False\<rparr>,
                    canonicalAddress = ''mjl@mox.example''\<rparr>\<rparr>"

text \<open>
  \<open>TestSpam\<close>: earlier messages of the same sender make the reputation conclusive,
  first as junk, then as ham.
\<close>

definition junk_sender_env :: env where
  "junk_sender_env = test_env\<lparr>reputation := (\<lambda>msg. (Some True, True, ''msgfrom-full'', None))\<rparr>"

definition known_sender_env :: env where
  "known_sender_env = test_env\<lparr>reputation := (\<lambda>msg. (Some False, True, ''msgfrom-full'', None))\<rparr>"

text \<open>
  A destination whose ruleset allows the mailing list domain \<open>example.org\<close>, and a
  message of that domain that DMARC evaluation rejects.
\<close>

definition listallow_env :: env where
  "listallow_env =
     test_env\<lparr>MessageRuleset :=
       (\<lambda>dest msg data. Some \<lparr>ListAllowDNSDomain = \<lparr>ASCII = ''example.org'', Unicode = ''''\<rparr>,
                                rs_Mailbox = ''List''\<rparr>)\<rparr>"

definition dmarc_reject_delivery :: delivery where
  "dmarc_reject_delivery =
     test_delivery\<lparr>dmarcResult := \<lparr>dmarc_Reject = True,
                                    dmarc_Status = dmarcStatusOther ''fail''\<rparr>\<rparr>"

text \<open>
  A zone that fails its health probe, and a DMARC report whose date range ends a
  million seconds after the clock of \<open>test_env\<close>.
\<close>

definition unhealthy_env :: env where
  "unhealthy_env = test_env\<lparr>checkDNSBLHealth := (\<lambda>zone. False)\<rparr>"

definition future_dmarc_report :: Feedback where
  "future_dmarc_report = \<lparr>PolicyPublished_Domain = ''mox.example'', DateRange_End = 1701000000\<rparr>"

definition future_dmarcrpt_env :: env where
  "future_dmarcrpt_env = test_env\<lparr>ParseMessageReport := (\<lambda>data. Inr future_dmarc_report)\<rparr>"

text \<open>A failure of the database read transaction.\<close>

definition db_error_env :: env where
  "db_error_env = test_env\<lparr>DB_Read := Some (Err ''database closed'')\<rparr>"

section \<open>Properties of the MTA-STS policy match\<close>

lemma cut_dot_None: "cut_dot s = None \<longleftrightarrow> CHR ''.'' \<notin> set s"
  by (induction s) (auto split: option.splits)

lemma cut_dot_Some:
  "cut_dot s = Some (a, b) \<longleftrightarrow> (CHR ''.'' \<notin> set a \<and> s = a @ CHR ''.'' # b)"
proof (induction s arbitrary: a b)
  case Nil
  then show ?case by simp
next
  case (Cons c cs)
  show ?case
  proof (cases "c = CHR ''.''")
    case True
    then show ?thesis
      by (cases a) auto
  next
    case False
    show ?thesis
    proof (cases "cut_dot cs")
      case None
      then have "CHR ''.'' \<notin> set cs" by (simp add: cut_dot_None)
      with None False show ?thesis
        by (cases a) auto
    next
      case (Some ab)
      obtain a' b' where ab: "ab = (a', b')" by (cases ab)
      from Some ab Cons.IH [of a' b']
      have *: "CHR ''.'' \<notin> set a'" "cs = a' @ CHR ''.'' # b'" by simp_all
      show ?thesis
      proof
        assume "cut_dot (c # cs) = Some (a, b)"
        with False Some ab have "a = c # a'" "b = b'" by simp_all
        with * False show "CHR ''.'' \<notin> set a \<and> c # cs = a @ CHR ''.'' # b" by simp
      next
        assume r: "CHR ''.'' \<notin> set a \<and> c # cs = a @ CHR ''.'' # b"
        with False obtain a2 where a: "a = c # a2"
          by (cases a) auto
        with r have "CHR ''.'' \<notin> set a2" "cs = a2 @ CHR ''.'' # b" by simp_all
        with Cons.IH [of a2 b] have "cut_dot cs = Some (a2, b)" by simp
        with False a show "cut_dot (c # cs) = Some (a, b)" by simp
      qed
    qed
  qed
qed

lemma SplitN_dot_2_match:
  "(length (SplitN_dot_2 s) = 2 \<and> SplitN_dot_2 s ! 1 = r) \<longleftrightarrow> after_first_label s r"
proof (cases "cut_dot s")
  case None
  then have "CHR ''.'' \<notin> set s" by (simp add: cut_dot_None)
  then have "\<not> after_first_label s r"
    by (auto simp: after_first_label_def)
  with None show ?thesis by (simp add: SplitN_dot_2_def)
next
  case (Some ab)
  obtain a b where ab: "ab = (a, b)" by (cases ab)
  with Some have c: "cut_dot s = Some (a, b)" by simp
  then have s: "CHR ''.'' \<notin> set a" "s = a @ CHR ''.'' # b"
    by (simp_all add: cut_dot_Some)
  have "after_first_label s r \<longleftrightarrow> b = r"
  proof
    assume "after_first_label s r"
    then obtain l where l: "CHR ''.'' \<notin> set l" "s = l @ CHR ''.'' # r"
      by (auto simp: after_first_label_def)
    then have "cut_dot s = Some (l, r)" by (simp add: cut_dot_Some)
    with c show "b = r" by simp
  next
    assume "b = r"
    with s show "after_first_label s r"
      by (auto simp: after_first_label_def)
  qed
  with c show ?thesis by (simp add: SplitN_dot_2_def)
qed

lemma Matches_loop_iff:
  "Matches_loop mxs host \<longleftrightarrow>
     (\<exists>mx \<in> set mxs. \<not> Wildcard mx \<and> Domain mx = host) \<or>
     (\<exists>mx \<in> set mxs. Wildcard mx \<and> after_first_label (ASCII host) (ASCII (Domain mx)))"
proof (induction mxs)
  case Nil
  then show ?case by simp
next
  case (Cons mx mxs)
  show ?case
  proof (cases "Wildcard mx")
    case True
    with Cons SplitN_dot_2_match [of "ASCII host" "ASCII (Domain mx)"] show ?thesis
      by (auto simp: Let_def)
  next
    case False
    with Cons show ?thesis by auto
  qed
qed

text \<open>
  Claim C10. \<open>p.Matches(h)\<close> is true exactly when some non-wildcard mx entry of \<open>p\<close>
  equals \<open>h\<close> (both fields), or the domain of some wildcard mx entry equals, in ASCII
  form, the part of \<open>h\<close>'s ASCII name after its first label. So the wildcard entry
  \<open>*.example.com\<close> matches \<open>mail.example.com\<close> and matches neither \<open>example.com\<close> nor
  \<open>foo.bar.example.com\<close>: a wildcard stands for exactly one label.
\<close>

theorem Matches_wildcard_one_label:
  "(Matches p h \<longleftrightarrow>
      (\<exists>mx \<in> set (MX p). \<not> Wildcard mx \<and> Domain mx = h) \<or>
      (\<exists>mx \<in> set (MX p). Wildcard mx \<and> after_first_label (ASCII h) (ASCII (Domain mx)))) \<and>
   (MX p = [\<lparr>Wildcard = True, Domain = \<lparr>ASCII = ''example.com'', Unicode = ''''\<rparr>\<rparr>] \<longrightarrow>
      Matches p \<lparr>ASCII = ''mail.example.com'', Unicode = ''''\<rparr> \<and>
      \<not> Matches p \<lparr>ASCII = ''example.com'', Unicode = ''''\<rparr> \<and>
      \<not> Matches p \<lparr>ASCII = ''foo.bar.example.com'', Unicode = ''''\<rparr>)"
  by (simp add: Matches_def Matches_loop_iff [symmetric] SplitN_dot_2_def)

theorem Matches_wildcard_one_label_witness:
  "Matches \<lparr>Version = ''STSv1'', Mode = ''enforce'',
      MX = [\<lparr>Wildcard = True, Domain = \<lparr>ASCII = ''example.com'', Unicode = ''''\<rparr>\<rparr>],
      MaxAgeSeconds = 86400, Extensions = []\<rparr>
     \<lparr>ASCII = ''mail.example.com'', Unicode = ''''\<rparr> \<and>
   after_first_label ''mail.example.com'' ''example.com''"
proof -
  let ?p = "\<lparr>Version = ''STSv1'', Mode = ''enforce'',
      MX = [\<lparr>Wildcard = True, Domain = \<lparr>ASCII = ''example.com'', Unicode = ''''\<rparr>\<rparr>],
      MaxAgeSeconds = 86400, Extensions = []\<rparr>"
  let ?h = "\<lparr>ASCII = ''mail.example.com'', Unicode = ''''\<rparr>"
  note t = Matches_wildcard_one_label [of ?p ?h]
  have mx: "MX ?p = [\<lparr>Wildcard = True, Domain = \<lparr>ASCII = ''example.com'', Unicode = ''''\<rparr>\<rparr>]"
    by simp
  from t [THEN conjunct2, rule_format, OF mx] have m: "Matches ?p ?h"
    by (rule conjunct1)
  with t [THEN conjunct1] have "after_first_label ''mail.example.com'' ''example.com''"
    by simp
  with m show ?thesis by (rule conjI)
qed

section \<open>Properties of the control connection\<close>

lemma digit_cases:
  assumes "d < (10::nat)"
  shows "d = 0 \<or> d = 1 \<or> d = 2 \<or> d = 3 \<or> d = 4 \<or> d = 5 \<or> d = 6 \<or> d = 7 \<or> d = 8 \<or> d = 9"
  using assms by arith

lemma digit_val_digit_char: "d < 10 \<Longrightarrow> digit_val (digit_char d) = Some d"
  by (drule digit_cases) (auto simp: digit_val_def digit_char_def)

lemma digit_char_plain:
  "d < 10 \<Longrightarrow> digit_char d \<noteq> nl \<and> digit_char d \<noteq> CHR ''+'' \<and> digit_char d \<noteq> CHR ''-''"
  by (drule digit_cases) (auto simp: digit_char_def nl_def)

lemma Itoa_digits: "c \<in> set (Itoa n) \<Longrightarrow> \<exists>d < 10. c = digit_char d"
proof (induction n arbitrary: c rule: Itoa.induct)
  case (1 n)
  show ?case
  proof (cases "n < 10")
    case True
    with "1.prems" show ?thesis by (auto simp: Itoa.simps [of n])
  next
    case False
    with "1.prems" have "c \<in> set (Itoa (n div 10)) \<or> c = digit_char (n mod 10)"
      by (auto simp: Itoa.simps [of n])
    then show ?thesis
    proof
      assume "c \<in> set (Itoa (n div 10))"
      with False "1.IH" show ?thesis by blast
    next
      assume "c = digit_char (n mod 10)"
      moreover have "n mod 10 < 10" by simp
      ultimately show ?thesis by blast
    qed
  qed
qed

lemma Itoa_no_nl: "nl \<notin> set (Itoa n)"
proof
  assume "nl \<in> set (Itoa n)"
  from Itoa_digits [OF this] obtain d where "d < 10" "nl = digit_char d" by auto
  with digit_char_plain [of d] show False by simp
qed

lemma Itoa_nonempty: "Itoa n \<noteq> []"
  by (subst Itoa.simps) simp

lemma Itoa_hd: "Itoa n = c # cs \<Longrightarrow> c \<noteq> CHR ''+'' \<and> c \<noteq> CHR ''-''"
proof -
  assume "Itoa n = c # cs"
  then have "c \<in> set (Itoa n)" by simp
  from Itoa_digits [OF this] obtain d where "d < 10" "c = digit_char d" by auto
  with digit_char_plain [of d] show ?thesis by simp
qed

lemma parse_digits_append:
  "parse_digits acc (xs @ ys) =
     (case parse_digits acc xs of None \<Rightarrow> None | Some v \<Rightarrow> parse_digits v ys)"
  by (induction xs arbitrary: acc) (auto split: option.splits)

lemma parse_digits_Itoa: "parse_digits 0 (Itoa n) = Some n"
proof (induction n rule: Itoa.induct)
  case (1 n)
  show ?case
  proof (cases "n < 10")
    case True
    then show ?thesis by (simp add: Itoa.simps [of n] digit_val_digit_char)
  next
    case False
    with "1.IH" have "parse_digits 0 (Itoa (n div 10)) = Some (n div 10)" by simp
    moreover have "digit_val (digit_char (n mod 10)) = Some (n mod 10)"
      by (simp add: digit_val_digit_char)
    ultimately show ?thesis
      using False by (simp add: Itoa.simps [of n] parse_digits_append)
  qed
qed

lemma ParseInt32_Itoa:
  "ParseInt32 (Itoa n) =
     (if n < 2 ^ 31 then Inr (int n) else Inl (Err ''value out of range''))"
proof -
  obtain c cs where i: "Itoa n = c # cs"
    using Itoa_nonempty [of n] by (cases "Itoa n") auto
  from Itoa_hd [OF i] have "c \<noteq> CHR ''+''" "c \<noteq> CHR ''-''" by simp_all
  moreover from i parse_digits_Itoa [of n] have "parse_digits 0 (c # cs) = Some n" by simp
  moreover have "int n \<le> 2147483647 \<longleftrightarrow> n < 2147483648" by arith
  ultimately show ?thesis
    by (simp add: ParseInt32_def i del: parse_digits.simps)
qed

lemma ReadString_nl_line:
  "nl \<notin> set xs \<Longrightarrow> ReadString_nl (xs @ nl # rest) = Some (xs @ [nl], rest)"
  by (induction xs) auto

lemma TrimSuffix_nl_line [simp]: "TrimSuffix_nl (xs @ [nl]) = xs"
  by (simp add: TrimSuffix_nl_def)

lemma read_count_frame:
  assumes "rd_r s = frame c @ rest" and "c \<noteq> []" and "length c < 2 ^ 31"
  shows "read_count s = Done (s\<lparr>rd_r := c @ rest, npending := int (length c)\<rparr>, False)"
proof -
  from assms(1) have "rd_r s = Itoa (length c) @ nl # (c @ rest)"
    by (simp add: frame_def)
  with ReadString_nl_line [OF Itoa_no_nl]
  have "ReadString_nl (rd_r s) = Some (Itoa (length c) @ [nl], c @ rest)" by simp
  with assms(2,3) show ?thesis
    by (simp add: read_count_def ParseInt32_Itoa)
qed

lemma Itoa_0: "Itoa 0 = ''0''"
  by (simp add: Itoa.simps digit_char_def)

lemma read_count_end:
  assumes "rd_r s = ''0'' @ [nl] @ rest"
  shows "read_count s = Done (s\<lparr>rd_r := rest, rd_err := Some EOF\<rparr>, True)"
proof -
  from assms have "rd_r s = Itoa 0 @ nl # rest" by (simp add: Itoa_0)
  with ReadString_nl_line [OF Itoa_no_nl]
  have "ReadString_nl (rd_r s) = Some (Itoa 0 @ [nl], rest)" by simp
  then show ?thesis
    by (simp add: read_count_def ParseInt32_Itoa)
qed

lemma bufio_Read_ex:
  assumes "0 < len_p" and "r \<noteq> []"
  shows "\<exists>n. 0 < n \<and> n \<le> len_p \<and> n \<le> length r \<and>
           bufio_Read len_p avail r = Some (take n r, drop n r)"
proof -
  define n where "n = min len_p (max 1 (min avail (length r)))"
  from assms have "0 < length r" by simp
  with assms(1) have "0 < n" "n \<le> len_p" "n \<le> length r"
    unfolding n_def by linarith+
  moreover from assms have "bufio_Read len_p avail r = Some (take n r, drop n r)"
    unfolding n_def by (simp add: bufio_Read_def Let_def)
  ultimately show ?thesis by blast
qed

lemma read_data_step:
  assumes "rn = (if npending s < int len_buf then npending s else int len_buf)"
    and "\<not> rn < 0"
    and "bufio_Read (nat rn) avail (rd_r s) = Some (bytes, rest)"
  shows "read_data len_buf avail s =
           (if npending s - int (length bytes) = 0
            then Done ((bytes, None),
                       s\<lparr>rd_r := rest, npending := npending s - int (length bytes),
                         rd_conn := rd_conn s @ ''ok'' @ [nl]\<rparr>)
            else Done ((bytes, None),
                       s\<lparr>rd_r := rest, npending := npending s - int (length bytes)\<rparr>))"
proof -
  have "read_data len_buf avail s =
      (if rn < 0 then Aborts ''slice bounds out of range''
       else (case bufio_Read (nat rn) avail (rd_r s) of
               None \<Rightarrow> Aborts ''read from ctl''
             | Some (bytes, rest) \<Rightarrow>
                 (let s' = s\<lparr>rd_r := rest, npending := npending s - int (length bytes)\<rparr>
                  in if npending s' = 0
                     then Done ((bytes, None), s'\<lparr>rd_conn := rd_conn s' @ ''ok'' @ [nl]\<rparr>)
                     else Done ((bytes, None), s'))))"
    unfolding read_data_def assms(1) Let_def ..
  also have "\<dots> =
      (if npending s - int (length bytes) = 0
       then Done ((bytes, None),
                  s\<lparr>rd_r := rest, npending := npending s - int (length bytes),
                    rd_conn := rd_conn s @ ''ok'' @ [nl]\<rparr>)
       else Done ((bytes, None),
                  s\<lparr>rd_r := rest, npending := npending s - int (length bytes)\<rparr>))"
    using assms(2) by (simp add: assms(3) Let_def)
  finally show ?thesis .
qed

lemma read_data_pending:
  assumes "npending s = int (length data)" and "data \<noteq> []" and "rd_r s = data @ rest"
    and "0 < len_buf"
  shows "\<exists>n. 0 < n \<and> n \<le> length data \<and>
           read_data len_buf avail s =
             Done ((take n data, None),
                   if n = length data
                   then s\<lparr>rd_r := rest, npending := 0, rd_conn := rd_conn s @ ok_line\<rparr>
                   else s\<lparr>rd_r := drop n data @ rest, npending := int (length data - n)\<rparr>)"
proof -
  define rn where "rn = (if npending s < int len_buf then npending s else int len_buf)"
  from assms(2) have "0 < int (length data)" by simp
  with assms(1,4) have rn: "0 < rn" "rn \<le> int (length data)"
    unfolding rn_def by (simp_all split: if_splits)
  then have p: "0 < nat rn" "nat rn \<le> length data" "\<not> rn < 0" by linarith+
  from assms(2,3) have r: "rd_r s \<noteq> []" by simp
  from bufio_Read_ex [OF p(1) r, of avail] obtain n
    where n: "0 < n" "n \<le> nat rn"
      and b: "bufio_Read (nat rn) avail (rd_r s) = Some (take n (rd_r s), drop n (rd_r s))"
    by blast
  from n p have nd: "n \<le> length data" by linarith
  with assms(3) have t: "take n (rd_r s) = take n data"
    and d: "drop n (rd_r s) = drop n data @ rest" by simp_all
  from nd have l: "length (take n data) = n" by simp
  from read_data_step [OF rn_def p(3) b]
  have step: "read_data len_buf avail s =
      (if int (length data) - int n = 0
       then Done ((take n data, None),
                  s\<lparr>rd_r := drop n data @ rest, npending := int (length data) - int n,
                    rd_conn := rd_conn s @ ''ok'' @ [nl]\<rparr>)
       else Done ((take n data, None),
                  s\<lparr>rd_r := drop n data @ rest, npending := int (length data) - int n\<rparr>))"
    unfolding t d l assms(1) .
  have "read_data len_buf avail s =
      Done ((take n data, None),
            if n = length data
            then s\<lparr>rd_r := rest, npending := 0, rd_conn := rd_conn s @ ok_line\<rparr>
            else s\<lparr>rd_r := drop n data @ rest, npending := int (length data - n)\<rparr>)"
  proof (cases "n = length data")
    case True
    then have "int (length data) - int n = 0" "drop n data = []" by simp_all
    with True show ?thesis
      unfolding step ok_line_def by simp
  next
    case False
    with nd have e: "int (length data) - int n = int (length data - n)"
      and ne: "int (length data - n) \<noteq> 0" by linarith+
    show ?thesis
      unfolding step e using False ne by simp
  qed
  with n(1) nd show ?thesis by (intro exI [of _ n]) simp
qed

lemma ctlreader_Read_pending:
  assumes "rd_err s = None" and "npending s \<noteq> 0"
  shows "ctlreader_Read len_buf avail s = read_data len_buf avail s"
  using assms by (simp add: ctlreader_Read_def)

lemma ctlreader_Read_frame:
  assumes "rd_err s = None" and "npending s = 0" and "rd_r s = frame c @ rest"
    and "c \<noteq> []" and "length c < 2 ^ 31"
  shows "ctlreader_Read len_buf avail s =
           read_data len_buf avail (s\<lparr>rd_r := c @ rest, npending := int (length c)\<rparr>)"
  using assms(1,2) by (simp add: ctlreader_Read_def read_count_frame [OF assms(3-5)])

lemma ctlreader_Read_end:
  assumes "rd_err s = None" and "npending s = 0" and "rd_r s = ''0'' @ [nl] @ rest"
  shows "ctlreader_Read len_buf avail s =
           Done (([], Some EOF), s\<lparr>rd_r := rest, rd_err := Some EOF\<rparr>)"
  using assms(1,2) by (simp add: ctlreader_Read_def read_count_end [OF assms(3)])

lemma xstreamto_loop_read_data:
  assumes "ctlreader_Read copy_buffer (next_avail avails) s = Done ((bytes, None), s')"
  shows "xstreamto_loop avails s = prepend bytes (xstreamto_loop (tl avails) s')"
  by (subst xstreamto_loop.simps) (simp add: assms prepend_def)

lemma prepend_prepend: "prepend a (prepend b r) = prepend (a @ b) r"
  by (simp add: prepend_def split: exec.splits)

lemma xstreamto_loop_pending:
  assumes "rd_err s = None" and "npending s = int (length data)" and "data \<noteq> []"
    and "rd_r s = data @ rest"
  shows "\<exists>avails'. xstreamto_loop avails s =
           prepend data
             (xstreamto_loop avails'
                (s\<lparr>rd_r := rest, npending := 0, rd_conn := rd_conn s @ ok_line\<rparr>))"
  using assms
proof (induction "length data" arbitrary: data avails s rule: less_induct)
  case less
  have "0 < copy_buffer" by (simp add: copy_buffer_def)
  from read_data_pending [OF less.prems(2,3,4) this, of "next_avail avails"]
  obtain n where n: "0 < n" "n \<le> length data"
    and rd: "read_data copy_buffer (next_avail avails) s =
               Done ((take n data, None),
                     if n = length data
                     then s\<lparr>rd_r := rest, npending := 0, rd_conn := rd_conn s @ ok_line\<rparr>
                     else s\<lparr>rd_r := drop n data @ rest, npending := int (length data - n)\<rparr>)"
    by blast
  from less.prems(2,3) have "npending s \<noteq> 0" by simp
  note rr = ctlreader_Read_pending [OF less.prems(1) this, of copy_buffer "next_avail avails"]
  show ?case
  proof (cases "n = length data")
    case True
    with rd rr have "ctlreader_Read copy_buffer (next_avail avails) s =
        Done ((data, None), s\<lparr>rd_r := rest, npending := 0, rd_conn := rd_conn s @ ok_line\<rparr>)"
      by simp
    from xstreamto_loop_read_data [OF this] show ?thesis by blast
  next
    case False
    let ?s = "s\<lparr>rd_r := drop n data @ rest, npending := int (length data - n)\<rparr>"
    from False rd rr have "ctlreader_Read copy_buffer (next_avail avails) s =
        Done ((take n data, None), ?s)"
      by simp
    note first = xstreamto_loop_read_data [OF this]
    from n False have sh: "length (drop n data) < length data" and ne: "drop n data \<noteq> []"
      by simp_all
    have "rd_err ?s = None" using less.prems(1) by simp
    moreover have "npending ?s = int (length (drop n data))" by simp
    moreover have "rd_r ?s = drop n data @ rest" by simp
    ultimately obtain avails' where
      "xstreamto_loop (tl avails) ?s =
         prepend (drop n data)
           (xstreamto_loop avails'
              (?s\<lparr>rd_r := rest, npending := 0, rd_conn := rd_conn ?s @ ok_line\<rparr>))"
      using less.hyps [OF sh _ _ ne, of ?s "tl avails"] by blast
    then have "xstreamto_loop avails s =
        prepend (take n data @ drop n data)
          (xstreamto_loop avails'
             (s\<lparr>rd_r := rest, npending := 0, rd_conn := rd_conn s @ ok_line\<rparr>))"
      by (simp add: first prepend_prepend)
    then show ?thesis by auto
  qed
qed

lemma wire_Cons: "wire (c # chunks) = frame c @ wire chunks"
  by (simp add: wire_def)

lemma acks_Suc: "acks (Suc n) = ok_line @ acks n"
  by (simp add: acks_def ok_line_def)

lemma xstreamto_loop_frames:
  assumes "\<forall>c \<in> set chunks. c \<noteq> [] \<and> length c < 2 ^ 31"
    and "rd_err s = None" and "npending s = 0" and "rd_r s = wire chunks @ rest"
  shows "xstreamto_loop avails s =
           Done (concat chunks,
                 s\<lparr>rd_r := rest, rd_err := Some EOF,
                   rd_conn := rd_conn s @ acks (length chunks)\<rparr>)"
  using assms
proof (induction chunks arbitrary: avails s)
  case Nil
  from Nil.prems(4) have "rd_r s = ''0'' @ [nl] @ rest" by (simp add: wire_def)
  from ctlreader_Read_end [OF Nil.prems(2,3) this, of copy_buffer "next_avail avails"]
  show ?case
    by (subst xstreamto_loop.simps) (simp add: acks_def)
next
  case (Cons c chunks)
  from Cons.prems(1) have c: "c \<noteq> []" "length c < 2 ^ 31"
    and cs: "\<forall>c \<in> set chunks. c \<noteq> [] \<and> length c < 2 ^ 31" by simp_all
  let ?s1 = "s\<lparr>rd_r := c @ wire chunks @ rest, npending := int (length c)\<rparr>"
  from Cons.prems(4) have "rd_r s = frame c @ (wire chunks @ rest)" by (simp add: wire_Cons)
  from ctlreader_Read_frame [OF Cons.prems(2,3) this c]
  have r0: "ctlreader_Read copy_buffer (next_avail avails) s =
              read_data copy_buffer (next_avail avails) ?s1" .
  have e1: "rd_err ?s1 = None" using Cons.prems(2) by simp
  have n1: "npending ?s1 \<noteq> 0" using c(1) by simp
  from r0 ctlreader_Read_pending [OF e1 n1]
  have "ctlreader_Read copy_buffer (next_avail avails) s =
          ctlreader_Read copy_buffer (next_avail avails) ?s1" by simp
  then have same: "xstreamto_loop avails s = xstreamto_loop avails ?s1"
    by (subst xstreamto_loop.simps, subst (2) xstreamto_loop.simps) simp
  let ?s2 = "?s1\<lparr>rd_r := wire chunks @ rest, npending := 0, rd_conn := rd_conn ?s1 @ ok_line\<rparr>"
  have "npending ?s1 = int (length c)" "rd_r ?s1 = c @ (wire chunks @ rest)" by simp_all
  from xstreamto_loop_pending [OF e1 this(1) c(1) this(2), of avails]
  obtain avails' where p: "xstreamto_loop avails ?s1 = prepend c (xstreamto_loop avails' ?s2)"
    by blast
  have "rd_err ?s2 = None" using Cons.prems(2) by simp
  moreover have "npending ?s2 = 0" "rd_r ?s2 = wire chunks @ rest" by simp_all
  ultimately have "xstreamto_loop avails' ?s2 =
      Done (concat chunks,
            ?s2\<lparr>rd_r := rest, rd_err := Some EOF,
                rd_conn := rd_conn ?s2 @ acks (length chunks)\<rparr>)"
    using Cons.IH [OF cs, of ?s2 avails'] by blast
  moreover from Cons.prems(3) have "s\<lparr>npending := 0\<rparr> = s" by simp
  then have "s\<lparr>npending := 0, rd_r := rest, rd_err := Some EOF,
               rd_conn := rd_conn s @ ok_line @ acks (length chunks)\<rparr> =
             s\<lparr>rd_r := rest, rd_err := Some EOF,
               rd_conn := rd_conn s @ ok_line @ acks (length chunks)\<rparr>"
    by simp
  ultimately show ?case
    using same p by (simp add: prepend_def acks_Suc)
qed

lemma TrimSuffix_ok: "TrimSuffix_nl (take 512 ok_line) = ''ok''"
  by (simp add: ok_line_def TrimSuffix_nl_def)

lemma ctlwriter_Write_ok:
  "ctlwriter_Write buf ok_line conn = Done (length buf, conn @ frame buf)"
  using TrimSuffix_ok by (simp add: ctlwriter_Write_def frame_def Let_def ok_line_def)

lemma ctlwriter_Writes_ok:
  "ctlwriter_Writes chunks (replicate (length chunks) ok_line) conn =
     Done (conn @ concat (map frame chunks))"
  by (induction chunks arbitrary: conn) (simp_all add: ctlwriter_Write_ok)

lemma xstreamfrom_ok:
  "xstreamfrom chunks (replicate (length chunks) ok_line) conn = Done (conn @ wire chunks)"
  by (simp add: xstreamfrom_def ctlwriter_Writes_ok xclose_def wire_def)

lemma read_data_ack:
  assumes "read_data len_buf avail s = Done ((bytes, x), s')" and "npending s \<noteq> 0"
  shows "x = None \<and>
         (if npending s' = 0 then rd_conn s' = rd_conn s @ ok_line \<and> bytes \<noteq> []
          else rd_conn s' = rd_conn s)"
proof -
  define rn where "rn = (if npending s < int len_buf then npending s else int len_buf)"
  from assms(1) have n: "\<not> rn < 0"
    by (auto simp: read_data_def Let_def rn_def split: if_splits)
  with assms(1) obtain bs rest where b: "bufio_Read (nat rn) avail (rd_r s) = Some (bs, rest)"
    by (auto simp: read_data_def Let_def rn_def split: option.splits if_splits)
  from assms(1) [unfolded read_data_step [OF rn_def n b]] assms(2)
  show ?thesis
    by (cases "npending s - int (length bs) = 0") (auto simp: ok_line_def)
qed

lemma ctlreader_Read_ack:
  assumes "ctlreader_Read len_buf avail s = Done ((bytes, x), s')"
  shows "if x = None \<and> npending s' = 0
         then rd_conn s' = rd_conn s @ ok_line \<and> bytes \<noteq> []
         else rd_conn s' = rd_conn s"
proof (cases "rd_err s")
  case (Some e)
  with assms show ?thesis by (auto simp: ctlreader_Read_def)
next
  case None
  show ?thesis
  proof (cases "npending s = 0")
    case False
    with None assms have "read_data len_buf avail s = Done ((bytes, x), s')"
      by (simp add: ctlreader_Read_def)
    from read_data_ack [OF this False] show ?thesis by (auto split: if_splits)
  next
    case True
    with None assms obtain s1 eof where c: "read_count s = Done (s1, eof)"
      by (auto simp: ctlreader_Read_def split: exec.splits)
    from c have k: "rd_conn s1 = rd_conn s"
      by (auto simp: read_count_def Let_def split: option.splits sum.splits if_splits)
    show ?thesis
    proof (cases eof)
      case True
      with \<open>npending s = 0\<close> None assms c k show ?thesis
        by (auto simp: ctlreader_Read_def)
    next
      case False
      with \<open>npending s = 0\<close> None assms c
      have d: "read_data len_buf avail s1 = Done ((bytes, x), s')"
        by (simp add: ctlreader_Read_def)
      from read_count_shorter [OF c] False have "npending s1 \<noteq> 0" by simp
      from read_data_ack [OF d this] k show ?thesis by (auto split: if_splits)
    qed
  qed
qed

lemma servectl_hello_xctl: "xctl (servectl_hello [] @ rest) = Done rest"
proof -
  have "nl \<notin> set ''ctlv0''" by (simp add: nl_def)
  from ReadString_nl_line [OF this, of rest]
  have "ReadString_nl (servectl_hello [] @ rest) = Some (''ctlv0'' @ [nl], rest)"
    by (simp add: servectl_hello_def xwrite_def del: ReadString_nl.simps)
  then show ?thesis
    by (simp add: xctl_def xread_def TrimSuffix_nl_def del: ReadString_nl.simps)
qed

text \<open>
  Claim C8, as amended. The server first sends the line \<open>ctlv0\<close>, which the client
  accepts. A write of \<open>buf\<close> is sent as the decimal count line and the bytes of
  \<open>buf\<close>. For chunks of more than 0 and fewer than \<open>2^31\<close> bytes each, acknowledged
  with \<open>ok\<close> lines, the writer sends their frames and the count line \<open>0\<close>, and the
  reader, whatever the connection delivers at each read, returns end of stream after
  exactly the concatenation of the chunks, having written one \<open>ok\<close> line for each
  frame. A \<open>Read\<close> writes \<open>ok\<close> exactly when it returns the last pending bytes of a
  frame, and after the end of the stream every \<open>Read\<close> returns \<open>io.EOF\<close>.
\<close>

theorem ctl_stream_framing:
  "servectl_hello [] = ''ctlv0'' @ [nl] \<and>
   xctl (servectl_hello [] @ rest) = Done rest \<and>
   ctlwriter_Write buf ok_line conn = Done (length buf, conn @ Itoa (length buf) @ [nl] @ buf) \<and>
   ((\<forall>c \<in> set chunks. 0 < length c \<and> length c < 2 ^ 31) \<longrightarrow>
      xstreamfrom chunks (replicate (length chunks) ok_line) conn = Done (conn @ wire chunks) \<and>
      xstreamto avails (wire chunks @ rest) =
        Done (concat chunks,
              \<lparr>rd_err = Some EOF, npending = 0, rd_r = rest,
               rd_conn = acks (length chunks)\<rparr>)) \<and>
   (ctlreader_Read len_buf avail s = Done ((bytes, x), s') \<longrightarrow>
      (if x = None \<and> npending s' = 0
       then rd_conn s' = rd_conn s @ ok_line \<and> bytes \<noteq> []
       else rd_conn s' = rd_conn s)) \<and>
   (rd_err s = Some EOF \<longrightarrow> ctlreader_Read len_buf avail s = Done (([], Some EOF), s))"
proof (intro conjI impI)
  show "servectl_hello [] = ''ctlv0'' @ [nl]"
    by (simp add: servectl_hello_def xwrite_def)
  show "xctl (servectl_hello [] @ rest) = Done rest"
    by (rule servectl_hello_xctl)
  show "ctlwriter_Write buf ok_line conn = Done (length buf, conn @ Itoa (length buf) @ [nl] @ buf)"
    by (simp add: ctlwriter_Write_ok frame_def)
  assume "\<forall>c \<in> set chunks. 0 < length c \<and> length c < 2 ^ 31"
  then have g: "\<forall>c \<in> set chunks. c \<noteq> [] \<and> length c < 2 ^ 31" by auto
  show "xstreamfrom chunks (replicate (length chunks) ok_line) conn = Done (conn @ wire chunks)"
    by (rule xstreamfrom_ok)
  have "rd_err (reader (wire chunks @ rest)) = None"
    and "npending (reader (wire chunks @ rest)) = 0"
    and "rd_r (reader (wire chunks @ rest)) = wire chunks @ rest"
    by (simp_all add: reader_def)
  from xstreamto_loop_frames [OF g this, of avails]
  show "xstreamto avails (wire chunks @ rest) =
          Done (concat chunks,
                \<lparr>rd_err = Some EOF, npending = 0, rd_r = rest,
                 rd_conn = acks (length chunks)\<rparr>)"
    by (simp add: xstreamto_def reader_def)
next
  assume "ctlreader_Read len_buf avail s = Done ((bytes, x), s')"
  from ctlreader_Read_ack [OF this]
  show "if x = None \<and> npending s' = 0
        then rd_conn s' = rd_conn s @ ok_line \<and> bytes \<noteq> []
        else rd_conn s' = rd_conn s" .
next
  assume "rd_err s = Some EOF"
  then show "ctlreader_Read len_buf avail s = Done (([], Some EOF), s)"
    by (simp add: ctlreader_Read_def)
qed

text \<open>
  Claim C8 as stated fails for a write of \<open>2^31\<close> bytes: its frame starts with the
  count line \<open>2147483648\<close>, which the reader's \<open>ParseInt(line, 10, 32)\<close> refuses, so
  the reader aborts with the line as error message and writes no \<open>ok\<close>.
\<close>

theorem ctl_stream_count_over_int32:
  "length two_gib = 2 ^ 31 \<and>
   frame two_gib = ''2147483648'' @ [nl] @ two_gib \<and>
   xstreamto [] (frame two_gib @ ''0'' @ [nl]) = Aborts ''2147483648''"
proof -
  have l: "length two_gib = 2147483648" by (simp add: two_gib_def)
  have i: "Itoa 2147483648 = ''2147483648''" by (simp add: Itoa.simps digit_char_def)
  have w: "wire [two_gib] = ''2147483648'' @ nl # (two_gib @ ''0'' @ [nl])"
    by (simp add: wire_def frame_def l i)
  have "nl \<notin> set ''2147483648''" by (simp add: nl_def)
  from ReadString_nl_line [OF this]
  have r: "ReadString_nl (wire [two_gib]) =
             Some (''2147483648'' @ [nl], two_gib @ ''0'' @ [nl])"
    unfolding w by blast
  have p: "ParseInt32 ''2147483648'' = Inl (Err ''value out of range'')"
    using ParseInt32_Itoa [of 2147483648] by (simp add: i)
  have "read_count (reader (wire [two_gib])) = Aborts ''2147483648''"
    using r p by (simp add: read_count_def reader_def TrimSuffix_nl_def del: ReadString_nl.simps)
  then have "xstreamto [] (wire [two_gib]) = Aborts ''2147483648''"
    by (subst xstreamto_def, subst xstreamto_loop.simps)
      (simp add: ctlreader_Read_def reader_def)
  moreover have "frame two_gib = ''2147483648'' @ [nl] @ two_gib"
    by (simp add: frame_def l i)
  moreover have "wire [two_gib] = frame two_gib @ ''0'' @ [nl]"
    by (simp add: wire_def)
  ultimately show ?thesis using l by simp
qed

text \<open>
  Two chunks, read three bytes, then one byte, then as many as fit at a time; a
  \<open>Read\<close> of one frame of one byte; and a \<open>Read\<close> after the end of the stream.
\<close>

theorem ctl_stream_framing_witness:
  "xstreamfrom [''hello, '', ''world''] [ok_line, ok_line] [] =
     Done (''7'' @ [nl] @ ''hello, '' @ ''5'' @ [nl] @ ''world'' @ ''0'' @ [nl]) \<and>
   xstreamto [3, 1] (''7'' @ [nl] @ ''hello, '' @ ''5'' @ [nl] @ ''world'' @ ''0'' @ [nl]) =
     Done (''hello, world'',
           \<lparr>rd_err = Some EOF, npending = 0, rd_r = [], rd_conn = ok_line @ ok_line\<rparr>) \<and>
   ctlreader_Read 16 16 (reader (''1'' @ [nl] @ ''x'')) =
     Done ((''x'', None), \<lparr>rd_err = None, npending = 0, rd_r = [], rd_conn = ok_line\<rparr>) \<and>
   rd_conn (reader (''1'' @ [nl] @ ''x'')) @ ok_line = ok_line \<and>
   ctlreader_Read 16 16 \<lparr>rd_err = Some EOF, npending = 0, rd_r = [], rd_conn = ok_line\<rparr> =
     Done (([], Some EOF), \<lparr>rd_err = Some EOF, npending = 0, rd_r = [], rd_conn = ok_line\<rparr>)"
proof -
  have g: "\<forall>c \<in> set [''hello, '', ''world'']. 0 < length c \<and> length c < 2 ^ 31" by simp
  have w: "wire [''hello, '', ''world''] =
             ''7'' @ [nl] @ ''hello, '' @ ''5'' @ [nl] @ ''world'' @ ''0'' @ [nl]"
    by (simp add: wire_def frame_def Itoa.simps digit_char_def)
  have a: "acks (length [''hello, '', ''world'']) = ok_line @ ok_line"
    by (simp add: acks_def)
  note t = ctl_stream_framing [of "[]" _ _ "[''hello, '', ''world'']" "[3, 1]",
      THEN conjunct2, THEN conjunct2, THEN conjunct2, THEN conjunct1, THEN mp, OF g]
  let ?s = "reader (''1'' @ [nl] @ ''x'')"
  let ?s' = "\<lparr>rd_err = None, npending = 0, rd_r = [], rd_conn = ok_line\<rparr>"
  let ?e = "\<lparr>rd_err = Some EOF, npending = 0, rd_r = [], rd_conn = ok_line\<rparr>"
  have "nl \<notin> set ''1''" by (simp add: nl_def)
  from ReadString_nl_line [OF this, of "''x''"]
  have "ReadString_nl (''1'' @ [nl] @ ''x'') = Some (''1'' @ [nl], ''x'')" by simp
  moreover have "ParseInt32 ''1'' = Inr 1"
    by (simp add: ParseInt32_def digit_val_def)
  ultimately have r: "ctlreader_Read 16 16 ?s = Done ((''x'', None), ?s')"
    by (simp add: ctlreader_Read_def read_count_def read_data_def bufio_Read_def reader_def
        TrimSuffix_nl_def ok_line_def Let_def del: ReadString_nl.simps)
  have e: "rd_err ?e = Some EOF" by simp
  note u = ctl_stream_framing [where len_buf = 16 and avail = 16 and s = ?s and
        bytes = "''x''" and x = None and s' = ?s',
      THEN conjunct2, THEN conjunct2, THEN conjunct2, THEN conjunct2, THEN conjunct1,
      THEN mp, OF r]
  note v = ctl_stream_framing [where len_buf = 16 and avail = 16 and s = ?e,
      THEN conjunct2, THEN conjunct2, THEN conjunct2, THEN conjunct2, THEN conjunct2,
      THEN mp, OF e]
  from u have k: "rd_conn ?s @ ok_line = ok_line" by simp
  from t r k v show ?thesis
    unfolding w a by simp
qed

section \<open>Properties of the policy fetch\<close>

lemma fetch_ctx_deadline:
  "\<exists>dl. Deadline (fetch_ctx e ctx) = Some dl \<and> dl \<le> Now e + Minute"
  by (auto simp: fetch_ctx_def WithTimeout_def split: option.splits)

lemma Client_Do_no_redirect:
  "Client_Do HTTPClient_CheckRedirect ctx answers via url =
     (case answers of
        [] \<Rightarrow> (Inl (URLError (Err ''no answer'')), via @ [url])
      | Fails x t # rest \<Rightarrow>
          (Inl (URLError (if expired ctx t then DeadlineExceeded else x)), via @ [url])
      | Responds resp # rest \<Rightarrow>
          if expired ctx (HeaderAt resp) then (Inl (URLError DeadlineExceeded), via @ [url])
          else (Inr resp, via @ [url])
      | Redirects location t # rest \<Rightarrow>
          (Inl (URLError (if expired ctx t then DeadlineExceeded
                          else Err ''redirect not allowed for MTA-STS policies'')),
           via @ [url]))"
  by (cases answers) (auto simp: HTTPClient_CheckRedirect_def split: http_answer.splits)

lemma not_found_texts [simp]:
  "\<not> IsNotFound DeadlineExceeded"
  by (simp add: DeadlineExceeded_def)

lemmas fetch_defs =
  fetch_requested_def fetch_policy_def fetch_rerr_def FetchPolicy_def Let_def
  Client_Do_no_redirect HTTPClient_CheckRedirect_def

lemmas fetch_env_defs =
  example_fetch_env_def ok_response_def redirecting_env_def long_policy_env_def
  short_policy_env_def example_domain_def

lemma fetch_one_request: "length (fetch_requested e ctx domain) \<le> 1"
  by (simp add: fetch_defs
      split: option.splits list.splits http_answer.splits sum.splits prod.splits)

lemma fetch_redirect_fails:
  assumes "NewRequestWithContext e (''https://mta-sts.'' @ Domain_Name e domain @
             ''/.well-known/mta-sts.txt'') = None"
    and "Answers e = Redirects location t # rest"
  shows "fetch_policy e ctx domain = None \<and>
         (\<exists>x. fetch_rerr e ctx domain = Some x \<and> errors_Is x ErrPolicyFetch)"
  using assms by (auto simp: fetch_defs DeadlineExceeded_def split: if_splits)

lemma expired_fetch_ctx:
  assumes "\<not> expired (fetch_ctx e ctx) t"
  shows "t \<le> Now e + Minute"
proof -
  obtain dl where "Deadline (fetch_ctx e ctx) = Some dl" and "dl \<le> Now e + Minute"
    using fetch_ctx_deadline by blast
  with assms show ?thesis by (simp add: expired_def)
qed

lemma LimitReader_ReadAll_Inr:
  "LimitReader_ReadAll Limit src = Inr buf \<longleftrightarrow>
     fst src = buf \<and> snd src = None \<and> length buf \<le> Limit"
  by (cases src) (auto simp: LimitReader_ReadAll_def split: option.splits)

lemma fetch_success:
  assumes "fetch_rerr e ctx domain = None"
  shows "\<exists>resp rest. Answers e = Responds resp # rest \<and> BodyAt resp \<le> Now e + Minute \<and>
           length (Body resp) \<le> 64 * 1024"
proof -
  let ?url = "''https://mta-sts.'' @ Domain_Name e domain @ ''/.well-known/mta-sts.txt''"
  from assms have n: "NewRequestWithContext e ?url = None"
    by (auto simp: fetch_rerr_def FetchPolicy_def Let_def split: option.splits)
  show ?thesis
  proof (cases "Answers e")
    case Nil
    with assms n show ?thesis by (simp add: fetch_defs)
  next
    case (Cons a rest)
    show ?thesis
    proof (cases a)
      case (Responds resp)
      with assms n Cons
      have "\<exists>buf. LimitReader_ReadAll (64 * 1024) (read_Body (fetch_ctx e ctx) resp) = Inr buf"
        by (auto simp: fetch_defs split: if_splits sum.splits)
      then have "snd (read_Body (fetch_ctx e ctx) resp) = None"
        and "length (fst (read_Body (fetch_ctx e ctx) resp)) \<le> 64 * 1024"
        by (auto simp: LimitReader_ReadAll_Inr)
      then have "\<not> expired (fetch_ctx e ctx) (BodyAt resp)" and "length (Body resp) \<le> 64 * 1024"
        by (auto simp: read_Body_def split: if_splits)
      with expired_fetch_ctx Cons Responds show ?thesis by blast
    next
      case (Redirects location t)
      with assms n Cons show ?thesis
        by (auto simp: fetch_defs DeadlineExceeded_def split: if_splits)
    next
      case (Fails x t)
      with assms n Cons show ?thesis
        by (auto simp: fetch_defs DeadlineExceeded_def split: if_splits)
    qed
  qed
qed

lemma fetch_long_body_fails:
  assumes "Answers e = Responds resp # rest" and "length (Body resp) > 64 * 1024"
  shows "fetch_policy e ctx domain = None \<and> fetch_rerr e ctx domain \<noteq> None"
proof -
  from assms(2) have "\<exists>x. LimitReader_ReadAll (64 * 1024) (read_Body (fetch_ctx e ctx) resp) = Inl x"
    by (simp add: LimitReader_ReadAll_def read_Body_def)
  with assms(1) show ?thesis
    by (auto simp: fetch_defs split: option.splits)
qed

text \<open>
  Claim C9. \<open>FetchPolicy\<close> sends at most one request: a redirect is never followed,
  and a redirect as the answer makes it return no policy and an error that is
  \<open>ErrPolicyFetch\<close>. The request runs under a context whose deadline is at most one
  minute after the start, so that a fetch that succeeds has read the whole body
  within that minute. A fetch that succeeds has read a body of at most 64 KiB, and
  for a response whose body is longer \<open>FetchPolicy\<close> returns an error and no policy.
\<close>

theorem FetchPolicy_no_redirect_deadline_limit:
  "length (fetch_requested e ctx domain) \<le> 1 \<and>
   (NewRequestWithContext e (''https://mta-sts.'' @ Domain_Name e domain @
       ''/.well-known/mta-sts.txt'') = None \<and>
    Answers e = Redirects location t # rest \<longrightarrow>
      fetch_policy e ctx domain = None \<and>
      (\<exists>x. fetch_rerr e ctx domain = Some x \<and> errors_Is x ErrPolicyFetch)) \<and>
   (\<exists>dl. Deadline (fetch_ctx e ctx) = Some dl \<and> dl \<le> Now e + Minute) \<and>
   (fetch_rerr e ctx domain = None \<longrightarrow>
      (\<exists>resp rest. Answers e = Responds resp # rest \<and> BodyAt resp \<le> Now e + Minute \<and>
         length (Body resp) \<le> 64 * 1024)) \<and>
   (Answers e = Responds resp # rest' \<and> length (Body resp) > 64 * 1024 \<longrightarrow>
      fetch_policy e ctx domain = None \<and> fetch_rerr e ctx domain \<noteq> None)"
  using fetch_one_request fetch_redirect_fails fetch_ctx_deadline fetch_success
    fetch_long_body_fails
  by blast

theorem FetchPolicy_no_redirect_deadline_limit_witness:
  "fetch_requested redirecting_env \<lparr>Deadline = None\<rparr> example_domain =
     [''https://mta-sts.example.org/.well-known/mta-sts.txt''] \<and>
   fetch_policy redirecting_env \<lparr>Deadline = None\<rparr> example_domain = None \<and>
   fetch_rerr redirecting_env \<lparr>Deadline = None\<rparr> example_domain =
     Some (Wrapped2 ''%w: http get: %s'' ErrPolicyFetch
             (URLError (Err ''redirect not allowed for MTA-STS policies''))) \<and>
   length (Body (ok_response (replicate 65537 CHR ''x''))) = 65537 \<and>
   fetch_policy long_policy_env \<lparr>Deadline = None\<rparr> example_domain = None \<and>
   fetch_rerr long_policy_env \<lparr>Deadline = None\<rparr> example_domain \<noteq> None \<and>
   fetch_rerr short_policy_env \<lparr>Deadline = None\<rparr> example_domain = None \<and>
   BodyAt (ok_response ''version: STSv1'') \<le> Now short_policy_env + Minute"
proof -
  let ?ctx = "\<lparr>Deadline = None\<rparr>"
  let ?url = "''https://mta-sts.example.org/.well-known/mta-sts.txt''"
  have q: "fetch_requested redirecting_env ?ctx example_domain = [?url]"
    and r: "fetch_rerr redirecting_env ?ctx example_domain =
              Some (Wrapped2 ''%w: http get: %s'' ErrPolicyFetch
                      (URLError (Err ''redirect not allowed for MTA-STS policies'')))"
    and s: "fetch_rerr short_policy_env ?ctx example_domain = None"
    by (simp_all add: fetch_defs fetch_env_defs LimitReader_ReadAll_def read_Body_def
        expired_def fetch_ctx_def WithTimeout_def Minute_def)
  have n: "NewRequestWithContext redirecting_env
             (''https://mta-sts.'' @ Domain_Name redirecting_env example_domain @
              ''/.well-known/mta-sts.txt'') = None \<and>
           Answers redirecting_env =
             Redirects ''https://elsewhere.example/mta-sts.txt'' 1000000000 #
             [Responds (ok_response ''version: STSv1'')]"
    by (simp add: fetch_env_defs)
  have l: "Answers long_policy_env = Responds (ok_response (replicate 65537 CHR ''x'')) # [] \<and>
           length (Body (ok_response (replicate 65537 CHR ''x''))) > 64 * 1024"
    by (simp add: fetch_env_defs)
  have a: "Answers short_policy_env = [Responds (ok_response ''version: STSv1'')]"
    by (simp add: fetch_env_defs)
  note t1 = FetchPolicy_no_redirect_deadline_limit [of redirecting_env ?ctx example_domain,
      THEN conjunct2, THEN conjunct1, rule_format, OF n]
  note t2 = FetchPolicy_no_redirect_deadline_limit [of long_policy_env ?ctx example_domain,
      THEN conjunct2, THEN conjunct2, THEN conjunct2, THEN conjunct2, rule_format, OF l]
  note t3 = FetchPolicy_no_redirect_deadline_limit [of short_policy_env ?ctx example_domain,
      THEN conjunct2, THEN conjunct2, THEN conjunct2, THEN conjunct1, rule_format, OF s]
  from t3 a have b: "BodyAt (ok_response ''version: STSv1'') \<le> Now short_policy_env + Minute"
    by auto
  have "length (Body (ok_response (replicate 65537 CHR ''x''))) = 65537"
    by (simp add: ok_response_def)
  with q r s t1 t2 b show ?thesis by blast
qed

section \<open>Properties of the analysis\<close>

lemmas reason_defs =
  reasonListAllow_def reasonDMARCPolicy_def reasonReputationError_def reasonReporting_def
  reasonSPFPolicy_def reasonJunkClassifyError_def reasonJunkFilterError_def
  reasonGiveSubjectpass_def reasonNoBadSignals_def reasonJunkContent_def
  reasonJunkContentStrict_def reasonDNSBlocklisted_def reasonSubjectpass_def
  reasonSubjectpassError_def reasonIPrev_def

lemmas smtp_defs =
  C550MailboxUnavail_def C451LocalErr_def SePol7MultiAuthFails26_def
  SePol7DeliveryUnauth1_def SeSys3Other0_def

lemmas method_defs = methodDKIMSPF_def methodIP1_def methodIP2_def methodIP3_def methodNone_def



lemma analyze_reputation:
  assumes "reaches_reputation e d"
  shows "analyze e d =
     (case reputation_read e d (ruleset_of e d) of
        Inl x \<Rightarrow>
          (Return (reject C451LocalErr SeSys3Other0 ''error processing'' (Some x)
                     reasonReputationError), [])
      | Inr (isjunk, conclusive, method) \<Rightarrow>
          if conclusive then
            (case isjunk of
               None \<Rightarrow> (Panic, [])
             | Some j \<Rightarrow>
                 if \<not> j then (Return (accepted (dmarc_report e d) (tls_report e d) method), [])
                 else (Return (reject C451LocalErr SeSys3Other0 ''error processing''
                                 None method), []))
          else if dmarc_report e d \<noteq> None \<or> tls_report e d \<noteq> None
          then (Return (accepted (dmarc_report e d) (tls_report e d) reasonReporting), [])
          else analyze_content e d isjunk method)"
proof -
  from assms have "\<not> listAllow e d (ruleset_of e d)"
    and "\<not> (dmarcUse d \<and> dmarc_Reject (dmarcResult d))"
    by (simp_all add: reaches_reputation_def)
  then show ?thesis
    by (auto simp: analyze_def ruleset_of_def Let_def)
qed

text \<open>
  Claim C1. For every delivery that reaches the reputation lookup (no list allowance
  and no DMARC reject before it): when the read transaction gives a conclusive
  reputation that is not junk, \<open>analyze\<close> accepts with the reputation method as
  reason; when it is conclusive and junk, \<open>analyze\<close> rejects with code 451, secode
  5.3.0 and the method as reason; when it is not conclusive and a DMARC or TLS report
  was extracted, \<open>analyze\<close> accepts with reason \<open>reporting\<close>.
\<close>

theorem analyze_reputation_verdict:
  assumes "reaches_reputation e d"
  shows "(reputation_read e d (ruleset_of e d) = Inr (Some False, True, method) \<longrightarrow>
           (\<exists>a. fst (analyze e d) = Return a \<and> accept a \<and> reason a = method)) \<and>
         (reputation_read e d (ruleset_of e d) = Inr (Some True, True, method) \<longrightarrow>
           (\<exists>a. fst (analyze e d) = Return a \<and> \<not> accept a \<and> code a = 451 \<and>
                secode a = ''5.3.0'' \<and> reason a = method)) \<and>
         (reputation_read e d (ruleset_of e d) = Inr (isjunk, False, method) \<and>
          (dmarc_report e d \<noteq> None \<or> tls_report e d \<noteq> None) \<longrightarrow>
           (\<exists>a. fst (analyze e d) = Return a \<and> accept a \<and> reason a = ''reporting''))"
  by (simp add: analyze_reputation [OF assms] accepted_def reject_def smtp_defs reason_defs)


lemma verdict_reject_451 [simp]:
  "verdict_shape (reject C451LocalErr SeSys3Other0 ''error processing'' x r)"
  by (auto simp: verdict_shape_def rejection_shape_def)

lemma verdict_accepted [simp]: "verdict_shape (accepted dr tr r)"
  by (auto simp: verdict_shape_def)

lemma subjectpass_step_shape: "subjectpass_step e d = Inl a \<Longrightarrow> verdict_shape a"
  by (auto simp: subjectpass_step_def split: if_splits prod.splits option.splits)

lemma junk_step_shape: "junk_step e d s = Inl a \<Longrightarrow> verdict_shape a"
  by (auto simp: junk_step_def Let_def split: if_splits prod.splits option.splits)

lemma final_step_shape: "verdict_shape (final_step e d method k acc bl js r)"
  by (auto simp: final_step_def verdict_shape_def rejection_shape_def)

lemma analyze_content_shape:
  "fst (analyze_content e d isjunk method) = Return a \<Longrightarrow> verdict_shape a"
  by (auto simp: analyze_content_def analyze_dnsbl_def Let_def final_step_shape
      dest: subjectpass_step_shape junk_step_shape
      split: if_splits prod.splits sum.splits)

lemma analyze_shape: "fst (analyze e d) = Return a \<Longrightarrow> verdict_shape a"
  by (auto simp: analyze_def Let_def verdict_shape_def rejection_shape_def
      dest: analyze_content_shape [unfolded verdict_shape_def rejection_shape_def]
      split: if_splits prod.splits sum.splits option.splits)

text \<open>
  Claim C7. Every rejection \<open>analyze\<close> returns with an internal error has code 451,
  secode 5.3.0 and \<open>userError\<close> false; every rejection with code 550 has no internal
  error, \<open>userError\<close> true and reason \<open>dmarc-policy\<close> or \<open>give-subjectpass\<close>; the
  codes of rejections are 451 and 550 only; and in a rejection \<open>userError\<close> is true
  exactly when the internal error is nil.
\<close>

theorem analyze_errors_are_temporary:
  assumes "fst (analyze e d) = Return a" and "\<not> accept a"
  shows "(err a \<noteq> None \<longrightarrow> code a = 451 \<and> secode a = ''5.3.0'' \<and> \<not> userError a) \<and>
         (code a = 550 \<longrightarrow>
            err a = None \<and> userError a \<and>
            (reason a = ''dmarc-policy'' \<or> reason a = ''give-subjectpass'')) \<and>
         (code a = 451 \<or> code a = 550) \<and>
         (userError a \<longleftrightarrow> err a = None)"
proof -
  from assms have "rejection_shape a"
    by (auto dest!: analyze_shape simp: verdict_shape_def accepted_def)
  then show ?thesis
    by (auto simp: rejection_shape_def reject_def smtp_defs reason_defs)
qed

lemmas step_defs =
  analyze_def analyze_content_def analyze_dnsbl_def final_step_def junk_step_def
  junk_threshold_def junk_reason_def subjectpass_step_def reputation_read_def
  dmarc_report_def tls_report_def listAllow_def spf_gate_def suspiciousIPrevFail_def
  method_without_history_def blocked_def reject_def accepted_def FileMsgReader_def
  ruleset_of_def reaches_reputation_def reaches_content_def reaches_classification_def
  accepted_after_classification_def listed_def

lemmas example_defs =
  test_env_def test_delivery_def blocklisted_delivery_def subjectpass_env_def spam_env_def
  low_threshold_env_def iprev_fail_delivery_def future_tls_report_def tlsrpt_env_def
  tlsrpt_delivery_def past_dmarc_report_def dmarcrpt_env_def dmarcrpt_delivery_def
  junk_sender_env_def known_sender_env_def listallow_env_def dmarc_reject_delivery_def
  db_error_env_def unhealthy_env_def future_dmarc_report_def future_dmarcrpt_env_def

lemma analyze_content_reached:
  assumes "reaches_content e d isjunk method"
  shows "analyze e d = analyze_content e d isjunk method"
  using assms
  by (simp add: reaches_content_def analyze_reputation)

lemma analyze_classification:
  assumes "reaches_classification e d isjunk method key"
  shows "analyze e d =
     (case junk_step e d (suspiciousIPrevFail method d) of
        Inl a \<Rightarrow> (Return a, [])
      | Inr (accept', junkSubjectpass, reason') \<Rightarrow>
          analyze_dnsbl e d method key accept' junkSubjectpass reason')"
proof -
  from assms have c: "reaches_content e d isjunk method" and "\<not> spf_gate method d"
    and "\<not> (suspiciousIPrevFail method d \<and> isjunk = Some True)"
    and "subjectpass_step e d = Inr key"
    by (simp_all add: reaches_classification_def)
  then show ?thesis
    by (auto simp: analyze_content_reached [OF c] analyze_content_def)
qed



lemma junk_step_flag_implies_accept:
  assumes "junk_step e d s = Inr (accept', junkSubjectpass, reason')" and junkSubjectpass
  shows accept'
  using assms
  by (auto simp: junk_step_def Let_def split: option.splits prod.splits if_splits)









lemma analyze_dnsbl_rejected:
  "analyze_dnsbl e d method key False junkSubjectpass reason' =
     (Return
        (if key \<noteq> '''' \<and> dmarc_Status (dmarcResult d) = dmarcStatusPass \<and> method = methodNone \<and>
            junkSubjectpass
         then reject C550MailboxUnavail SePol7DeliveryUnauth1
                (Explanation e @ Generate e (msgFrom d) key) None reasonGiveSubjectpass
         else reject C451LocalErr SeSys3Other0 ''error processing'' None reason'),
      [])"
  by (simp add: analyze_dnsbl_def final_step_def)



text \<open>
  Claim C4, at the rejections for spammy content. For every delivery that reaches
  the content classification and is rejected there (\<open>accept\<close> false after the junk
  filter), \<open>junkSubjectpass\<close> is false and \<open>analyze\<close> returns 451 5.3.0 with the
  reason of the classification, also when a subjectpass key was obtained, the DMARC
  status is pass and the reputation method is \<open>none\<close>: the claim promises 550 5.7.1
  with a subjectpass token there. \<open>junkSubjectpass\<close> is set for
  \<open>prob < threshold - 0.2\<close> only, where the message was accepted.
\<close>

theorem content_rejection_gets_no_subjectpass_hint:
  assumes "reaches_classification e d isjunk method key"
    and "junk_step e d (suspiciousIPrevFail method d) = Inr (False, junkSubjectpass, reason')"
  shows "\<not> junkSubjectpass \<and>
         analyze e d = (Return (reject 451 ''5.3.0'' ''error processing'' None reason'), [])"
proof -
  from junk_step_flag_implies_accept [OF assms(2)] have n: "\<not> junkSubjectpass" by blast
  then have "analyze e d =
      (Return (reject C451LocalErr SeSys3Other0 ''error processing'' None reason'), [])"
    by (simp add: analyze_classification [OF assms(1)] assms(2) analyze_dnsbl_rejected)
  with n show ?thesis by (simp add: smtp_defs)
qed

lemma sint_plus_60:
  assumes "sint (now :: 64 word) < 2 ^ 63 - 60"
  shows "sint (now + 60) = sint now + 60"
proof -
  have lo: "- (2 ^ 63) \<le> sint now" using sint_ge [of now] by simp
  have "sint (now + 60) = signed_take_bit 63 (sint now + sint (60 :: 64 word))"
    by (simp add: sint_word_ariths)
  also have "sint (60 :: 64 word) = 60" by simp
  also have "signed_take_bit 63 (sint now + 60) = sint now + 60"
    using lo assms by (intro signed_take_bit_int_eq_self) simp_all
  finally show ?thesis .
qed

lemma tls_dkim_ok_iff:
  "tls_dkim_ok e fromdom rs \<longleftrightarrow>
     (\<exists>r \<in> set rs. dkim_Status r = dkimStatusPass \<and> sig_Domain (dkim_Sig r) = fromdom \<and>
        sint (sig_Length (dkim_Sig r)) < 0 \<and> ServiceAllowed e (dkim_Record r) ''tlsrpt'')"
  by (induction rs) auto

lemma tls_known_iff:
  "tls_known e ps \<longleftrightarrow>
     (\<exists>p \<in> set ps. \<exists>dm. ParseDomain e (Policy_Domain p) = Inr dm \<and> Conf_Domain e dm)"
  by (induction ps) (auto split: sum.splits)

lemma dmarc_report_Some:
  assumes "dmarc_report e d = Some rep"
  shows "DMARCReports (destination (rcptAcc d)) \<and>
         dmarc_Status (dmarcResult d) = dmarcStatusPass \<and>
         ParseMessageReport e (FileMsgReader (MsgPrefix (m d)) (dataFile d)) = Inr rep \<and>
         (\<exists>dm. ParseDomain e (PolicyPublished_Domain rep) = Inr dm \<and> Conf_Domain e dm) \<and>
         sint (DateRange_End rep) \<le> sint (Now_Unix e + 60)"
  using assms
  by (auto simp: dmarc_report_def split: if_splits sum.splits)

lemma tls_report_Some:
  assumes "tls_report e d = Some rep"
  shows "TLSReports (destination (rcptAcc d)) \<and>
         (\<exists>r \<in> set (dkimResults d).
            dkim_Status r = dkimStatusPass \<and> sig_Domain (dkim_Sig r) = addr_Domain (msgFrom d) \<and>
            sint (sig_Length (dkim_Sig r)) < 0 \<and> ServiceAllowed e (dkim_Record r) ''tlsrpt'') \<and>
         ParseMessage e (FileMsgReader (MsgPrefix (m d)) (dataFile d)) = Inr rep \<and>
         (\<exists>p \<in> set (Policies rep). \<exists>dm.
            ParseDomain e (Policy_Domain p) = Inr dm \<and> Conf_Domain e dm)"
  using assms
  by (auto simp: tls_report_def tls_dkim_ok_iff tls_known_iff split: if_splits sum.splits)

lemma no_reports_reject [simp]: "no_reports (reject c s msg x r)"
  by (simp add: no_reports_def reject_def)

lemma no_reports_accepted [simp]: "no_reports (accepted None None r)"
  by (simp add: no_reports_def accepted_def)

lemma subjectpass_step_no_reports: "subjectpass_step e d = Inl a \<Longrightarrow> no_reports a"
  by (auto simp: subjectpass_step_def split: if_splits prod.splits option.splits)

lemma junk_step_no_reports: "junk_step e d s = Inl a \<Longrightarrow> no_reports a"
  by (auto simp: junk_step_def Let_def split: if_splits prod.splits option.splits)

lemma final_step_no_reports: "no_reports (final_step e d method k acc bl js r)"
  by (simp add: final_step_def)

lemma analyze_content_no_reports:
  "fst (analyze_content e d isjunk method) = Return a \<Longrightarrow> no_reports a"
  by (auto simp: analyze_content_def analyze_dnsbl_def final_step_no_reports
      dest: subjectpass_step_no_reports junk_step_no_reports
      split: if_splits prod.splits sum.splits)

lemma analyze_reports:
  assumes "fst (analyze e d) = Return a"
  shows "(dmarcReport a = None \<or> dmarcReport a = dmarc_report e d) \<and>
         (tlsReport a = None \<or> tlsReport a = tls_report e d)"
  using assms
  by (auto simp: analyze_def Let_def accepted_def reject_def
      dest: analyze_content_no_reports [unfolded no_reports_def]
      split: if_splits prod.splits sum.splits option.splits)

text \<open>
  Claim C6, as amended. For every value \<open>analyze\<close> returns (the clock being more than
  60 seconds before the end of int64): a DMARC report is carried only if the
  destination receives DMARC reports, the DMARC status is pass, the report parses,
  its policy-published domain parses and is configured, and its date range ends at
  most 60 seconds after now; a TLS report is carried only if the destination
  receives TLS reports, some DKIM result has status pass, the From domain as
  signature domain, no length and a record that allows service \<open>tlsrpt\<close>, the report
  parses and one of its policy domains parses and is configured; a DMARC report whose
  date range ends more than 60 seconds after now is not carried. The date range of a
  TLS report is not checked.
\<close>

theorem reports_carried_only_when_validated:
  assumes "fst (analyze e d) = Return a" and "sint (Now_Unix e) < 2 ^ 63 - 60"
  shows "(\<forall>rep. dmarcReport a = Some rep \<longrightarrow>
            DMARCReports (destination (rcptAcc d)) \<and>
            dmarc_Status (dmarcResult d) = dmarcStatusPass \<and>
            ParseMessageReport e (FileMsgReader (MsgPrefix (m d)) (dataFile d)) = Inr rep \<and>
            (\<exists>dm. ParseDomain e (PolicyPublished_Domain rep) = Inr dm \<and> Conf_Domain e dm) \<and>
            sint (DateRange_End rep) \<le> sint (Now_Unix e) + 60) \<and>
         (\<forall>rep. tlsReport a = Some rep \<longrightarrow>
            TLSReports (destination (rcptAcc d)) \<and>
            (\<exists>r \<in> set (dkimResults d).
               dkim_Status r = dkimStatusPass \<and>
               sig_Domain (dkim_Sig r) = addr_Domain (msgFrom d) \<and>
               sint (sig_Length (dkim_Sig r)) < 0 \<and>
               ServiceAllowed e (dkim_Record r) ''tlsrpt'') \<and>
            ParseMessage e (FileMsgReader (MsgPrefix (m d)) (dataFile d)) = Inr rep \<and>
            (\<exists>p \<in> set (Policies rep). \<exists>dm.
               ParseDomain e (Policy_Domain p) = Inr dm \<and> Conf_Domain e dm)) \<and>
         (\<forall>rep. ParseMessageReport e (FileMsgReader (MsgPrefix (m d)) (dataFile d)) = Inr rep \<and>
                sint (Now_Unix e) + 60 < sint (DateRange_End rep) \<longrightarrow>
            dmarcReport a = None)"
proof (intro conjI allI impI)
  fix rep
  assume "dmarcReport a = Some rep"
  with analyze_reports [OF assms(1)] have "dmarc_report e d = Some rep" by auto
  from dmarc_report_Some [OF this] sint_plus_60 [OF assms(2)]
  show "DMARCReports (destination (rcptAcc d))"
    and "dmarc_Status (dmarcResult d) = dmarcStatusPass"
    and "ParseMessageReport e (FileMsgReader (MsgPrefix (m d)) (dataFile d)) = Inr rep"
    and "\<exists>dm. ParseDomain e (PolicyPublished_Domain rep) = Inr dm \<and> Conf_Domain e dm"
    and "sint (DateRange_End rep) \<le> sint (Now_Unix e) + 60"
    by simp_all
next
  fix rep
  assume "tlsReport a = Some rep"
  with analyze_reports [OF assms(1)] have "tls_report e d = Some rep" by auto
  from tls_report_Some [OF this]
  show "TLSReports (destination (rcptAcc d))"
    and "\<exists>r \<in> set (dkimResults d).
           dkim_Status r = dkimStatusPass \<and>
           sig_Domain (dkim_Sig r) = addr_Domain (msgFrom d) \<and>
           sint (sig_Length (dkim_Sig r)) < 0 \<and>
           ServiceAllowed e (dkim_Record r) ''tlsrpt''"
    and "ParseMessage e (FileMsgReader (MsgPrefix (m d)) (dataFile d)) = Inr rep"
    and "\<exists>p \<in> set (Policies rep). \<exists>dm.
           ParseDomain e (Policy_Domain p) = Inr dm \<and> Conf_Domain e dm"
    by simp_all
next
  fix rep
  assume h: "ParseMessageReport e (FileMsgReader (MsgPrefix (m d)) (dataFile d)) = Inr rep \<and>
             sint (Now_Unix e) + 60 < sint (DateRange_End rep)"
  show "dmarcReport a = None"
  proof (rule ccontr)
    assume "dmarcReport a \<noteq> None"
    then obtain rep' where r: "dmarcReport a = Some rep'" by auto
    with analyze_reports [OF assms(1)] have "dmarc_report e d = Some rep'" by auto
    from dmarc_report_Some [OF this] sint_plus_60 [OF assms(2)] h show False by simp
  qed
qed

text \<open>
  Claim C6 as stated fails for TLS reports: a TLS report whose date range ends a
  million seconds in the future is carried through to delivery.
\<close>

theorem tls_report_future_end_is_carried:
  "TLSReports (destination (rcptAcc tlsrpt_delivery)) \<and>
   ParseMessage tlsrpt_env
     (FileMsgReader (MsgPrefix (m tlsrpt_delivery)) (dataFile tlsrpt_delivery)) =
     Inr future_tls_report \<and>
   sint (Now_Unix tlsrpt_env) + 60 < sint (tls_DateRange_End future_tls_report) \<and>
   analyze tlsrpt_env tlsrpt_delivery =
     (Return (accepted None (Some future_tls_report) ''reporting''), [])"
  by (simp add: step_defs example_defs smtp_defs reason_defs method_defs Let_def)

subsection \<open>The theorems at the example deliveries\<close>

lemmas eval_defs = step_defs example_defs smtp_defs reason_defs method_defs Let_def

theorem analyze_reputation_verdict_witness:
  "reaches_reputation known_sender_env test_delivery \<and>
   (\<exists>a. fst (analyze known_sender_env test_delivery) = Return a \<and> accept a \<and>
        reason a = ''msgfrom-full'') \<and>
   (\<exists>a. fst (analyze junk_sender_env test_delivery) = Return a \<and> \<not> accept a \<and>
        code a = 451 \<and> secode a = ''5.3.0'' \<and> reason a = ''msgfrom-full'') \<and>
   dmarc_report dmarcrpt_env dmarcrpt_delivery = Some past_dmarc_report \<and>
   (\<exists>a. fst (analyze dmarcrpt_env dmarcrpt_delivery) = Return a \<and> accept a \<and>
        reason a = ''reporting'')"
proof -
  have r1: "reaches_reputation known_sender_env test_delivery"
    and r2: "reaches_reputation junk_sender_env test_delivery"
    and r3: "reaches_reputation dmarcrpt_env dmarcrpt_delivery"
    by (simp_all add: eval_defs)
  have h1: "reputation_read known_sender_env test_delivery
              (ruleset_of known_sender_env test_delivery) = Inr (Some False, True, ''msgfrom-full'')"
    and h2: "reputation_read junk_sender_env test_delivery
              (ruleset_of junk_sender_env test_delivery) = Inr (Some True, True, ''msgfrom-full'')"
    and h3: "reputation_read dmarcrpt_env dmarcrpt_delivery
              (ruleset_of dmarcrpt_env dmarcrpt_delivery) = Inr (None, False, ''none'')"
    and h4: "dmarc_report dmarcrpt_env dmarcrpt_delivery = Some past_dmarc_report"
    by (simp_all add: eval_defs)
  note t1 = analyze_reputation_verdict [OF r1, of "''msgfrom-full''", THEN conjunct1,
      rule_format, OF h1]
  note t2 = analyze_reputation_verdict [OF r2, of "''msgfrom-full''", THEN conjunct2,
      THEN conjunct1, rule_format, OF h2]
  from h3 h4
  have "reputation_read dmarcrpt_env dmarcrpt_delivery
          (ruleset_of dmarcrpt_env dmarcrpt_delivery) = Inr (None, False, ''none'') \<and>
        (dmarc_report dmarcrpt_env dmarcrpt_delivery \<noteq> None \<or>
         tls_report dmarcrpt_env dmarcrpt_delivery \<noteq> None)"
    by simp
  note t3 = analyze_reputation_verdict [OF r3, of "''none''" None, THEN conjunct2,
      THEN conjunct2, rule_format, OF this]
  from r1 t1 t2 h4 t3 show ?thesis by blast
qed




theorem reports_carried_only_when_validated_witness:
  "fst (analyze dmarcrpt_env dmarcrpt_delivery) =
     Return (accepted (Some past_dmarc_report) None ''reporting'') \<and>
   sint (Now_Unix dmarcrpt_env) < 2 ^ 63 - 60 \<and>
   DMARCReports (destination (rcptAcc dmarcrpt_delivery)) \<and>
   dmarc_Status (dmarcResult dmarcrpt_delivery) = dmarcStatusPass \<and>
   sint (DateRange_End past_dmarc_report) \<le> sint (Now_Unix dmarcrpt_env) + 60 \<and>
   fst (analyze tlsrpt_env tlsrpt_delivery) =
     Return (accepted None (Some future_tls_report) ''reporting'') \<and>
   TLSReports (destination (rcptAcc tlsrpt_delivery)) \<and>
   ParseMessage tlsrpt_env
     (FileMsgReader (MsgPrefix (m tlsrpt_delivery)) (dataFile tlsrpt_delivery)) =
     Inr future_tls_report \<and>
   ParseMessageReport future_dmarcrpt_env
     (FileMsgReader (MsgPrefix (m dmarcrpt_delivery)) (dataFile dmarcrpt_delivery)) =
     Inr future_dmarc_report \<and>
   sint (Now_Unix future_dmarcrpt_env) + 60 < sint (DateRange_End future_dmarc_report) \<and>
   fst (analyze future_dmarcrpt_env dmarcrpt_delivery) =
     Return (accepted None None ''no-bad-signals'')"
proof -
  let ?a = "accepted (Some past_dmarc_report) None ''reporting''"
  let ?b = "accepted None (Some future_tls_report) ''reporting''"
  let ?c = "accepted None None ''no-bad-signals''"
  have a: "fst (analyze dmarcrpt_env dmarcrpt_delivery) = Return ?a"
    and b: "fst (analyze tlsrpt_env tlsrpt_delivery) = Return ?b"
    and c: "fst (analyze future_dmarcrpt_env dmarcrpt_delivery) = Return ?c"
    and n: "sint (Now_Unix dmarcrpt_env) < 2 ^ 63 - 60"
    and n': "sint (Now_Unix tlsrpt_env) < 2 ^ 63 - 60"
    and n'': "sint (Now_Unix future_dmarcrpt_env) < 2 ^ 63 - 60"
    by (simp_all add: eval_defs)
  have f: "ParseMessageReport future_dmarcrpt_env
             (FileMsgReader (MsgPrefix (m dmarcrpt_delivery)) (dataFile dmarcrpt_delivery)) =
             Inr future_dmarc_report \<and>
           sint (Now_Unix future_dmarcrpt_env) + 60 < sint (DateRange_End future_dmarc_report)"
    by (simp add: eval_defs)
  have da: "dmarcReport ?a = Some past_dmarc_report"
    and tb: "tlsReport ?b = Some future_tls_report"
    by (simp_all add: accepted_def)
  from reports_carried_only_when_validated [OF a n, THEN conjunct1, rule_format, OF da]
  have 1: "DMARCReports (destination (rcptAcc dmarcrpt_delivery)) \<and>
        dmarc_Status (dmarcResult dmarcrpt_delivery) = dmarcStatusPass \<and>
        sint (DateRange_End past_dmarc_report) \<le> sint (Now_Unix dmarcrpt_env) + 60"
    by blast
  from reports_carried_only_when_validated [OF b n', THEN conjunct2, THEN conjunct1,
      rule_format, OF tb]
  have 2: "TLSReports (destination (rcptAcc tlsrpt_delivery)) \<and>
        ParseMessage tlsrpt_env
          (FileMsgReader (MsgPrefix (m tlsrpt_delivery)) (dataFile tlsrpt_delivery)) =
          Inr future_tls_report"
    by blast
  from reports_carried_only_when_validated [OF c n'', THEN conjunct2, THEN conjunct2,
      rule_format, OF f]
  have 3: "dmarcReport ?c = None" .
  from a n 1 b 2 f c show ?thesis by blast
qed

theorem analyze_errors_are_temporary_witness:
  "fst (analyze db_error_env test_delivery) =
     Return (reject 451 ''5.3.0'' ''error processing'' (Some (Err ''database closed''))
               ''reputation-error'') \<and>
   \<not> userError (reject 451 ''5.3.0'' ''error processing'' (Some (Err ''database closed''))
                  ''reputation-error'') \<and>
   fst (analyze subjectpass_env blocklisted_delivery) =
     Return (reject 550 ''5.7.1'' (''retry with this in the subject: '' @ ''token'') None
               ''give-subjectpass'') \<and>
   userError (reject 550 ''5.7.1'' (''retry with this in the subject: '' @ ''token'') None
               ''give-subjectpass'')"
proof -
  let ?a = "reject 451 ''5.3.0'' ''error processing'' (Some (Err ''database closed''))
              ''reputation-error''"
  let ?b = "reject 550 ''5.7.1'' (''retry with this in the subject: '' @ ''token'') None
              ''give-subjectpass''"
  have a: "fst (analyze db_error_env test_delivery) = Return ?a"
    and b: "fst (analyze subjectpass_env blocklisted_delivery) = Return ?b"
    by (simp_all add: eval_defs)
  have na: "\<not> accept ?a" and nb: "\<not> accept ?b" and ea: "err ?a \<noteq> None" and cb: "code ?b = 550"
    by (simp_all add: reject_def)
  from analyze_errors_are_temporary [OF a na] ea have "\<not> userError ?a" by blast
  moreover from analyze_errors_are_temporary [OF b nb] cb have "userError ?b" by blast
  ultimately show ?thesis using a b by blast
qed


text \<open>
  The failing input of claim C4: subjectpass is configured and a key is obtained, the
  DMARC status is pass, the reputation method is \<open>none\<close>, and the junk filter rejects
  the message (0.875 against a threshold of 0.5).
\<close>

theorem content_rejection_gets_no_subjectpass_hint_witness:
  "subjectpass_step spam_env test_delivery = Inr ''key'' \<and>
   dmarc_Status (dmarcResult test_delivery) = dmarcStatusPass \<and>
   reaches_classification spam_env test_delivery None methodNone ''key'' \<and>
   junk_step spam_env test_delivery (suspiciousIPrevFail methodNone test_delivery) =
     Inr (False, False, ''junk-content'') \<and>
   analyze spam_env test_delivery =
     (Return (reject 451 ''5.3.0'' ''error processing'' None ''junk-content''), [])"
proof -
  have k: "subjectpass_step spam_env test_delivery = Inr ''key''"
    and p: "dmarc_Status (dmarcResult test_delivery) = dmarcStatusPass"
    and r: "reaches_classification spam_env test_delivery None methodNone ''key''"
    and j: "junk_step spam_env test_delivery (suspiciousIPrevFail methodNone test_delivery) =
              Inr (False, False, ''junk-content'')"
    by (simp_all add: eval_defs)
  from content_rejection_gets_no_subjectpass_hint [OF r j] k p r j show ?thesis by simp
qed

end
